theory Spec2Isabelle
  imports Complex_Main
begin

text \<open>
  The server side of the AI project planner: the rate limiter, the input sanitizer, the
  schemas of requests and plans, the recovery and normalization of the model's answer,
  and the two request handlers, followed by what holds of them.
\<close>

section \<open>Strings and numbers of the host language\<close>

text \<open>
  A JavaScript string is a sequence of UTF-16 code units; a code unit is modelled by its
  number. Times are epoch milliseconds as returned by \<^verbatim>\<open>Date.now()\<close> and are integers,
  as are the policy constants. A number that comes out of a JSON document is only stored
  and compared, never computed with; it is a \<open>real\<close>.
\<close>

type_synonym jsstring = "nat list"

definition js :: "string \<Rightarrow> jsstring" where
  "js s = map of_char s"

section \<open>Constants (app/lib/constants.ts)\<close>

definition MAX_PHASES :: nat where
  "MAX_PHASES = 5"

definition MAX_TASKS_PER_PHASE :: nat where
  "MAX_TASKS_PER_PHASE = 5"

definition GENERATE_PLAN_MAX :: int where
  "GENERATE_PLAN_MAX = 5"

definition GENERATE_PLAN_WINDOW_MS :: int where
  "GENERATE_PLAN_WINDOW_MS = 2 * 60 * 1000"

definition EXPLAIN_PLAN_MAX :: int where
  "EXPLAIN_PLAN_MAX = 10"

definition EXPLAIN_PLAN_WINDOW_MS :: int where
  "EXPLAIN_PLAN_WINDOW_MS = 5 * 60 * 1000"

definition CLEANUP_INTERVAL :: int where
  "CLEANUP_INTERVAL = 60000"

section \<open>Rate limiter (lib.server/rate-limit)\<close>

record RateLimitRecord =
  count :: int
  resetAt :: int

text \<open>
  The module state: the process-wide \<^verbatim>\<open>rateLimitMap\<close> and \<^verbatim>\<open>lastCleanup\<close>.
\<close>

record limiter =
  rateLimitMap :: "jsstring \<rightharpoonup> RateLimitRecord"
  lastCleanup :: int

text \<open>
  \<^verbatim>\<open>cleanupExpiredRecords\<close> reads the clock itself; the reading is the first argument.
  The two loops (collect the expired keys, delete them) remove exactly the entries whose
  \<^verbatim>\<open>resetAt < now\<close>. The log line it prints is not part of the state.
\<close>

definition cleanupExpiredRecords :: "int \<Rightarrow> limiter \<Rightarrow> limiter" where
  "cleanupExpiredRecords now st =
     (if now - lastCleanup st < CLEANUP_INTERVAL then st
      else st\<lparr>lastCleanup := now,
              rateLimitMap := (\<lambda>key. case rateLimitMap st key of
                                 None \<Rightarrow> None
                               | Some record \<Rightarrow> if resetAt record < now then None else Some record)\<rparr>)"

record RateLimitResult =
  allowed :: bool
  remaining :: int
  resultResetAt :: int
  resetIn :: int

text \<open>\<^verbatim>\<open>Math.ceil(x / 1000)\<close> on an integer number of milliseconds.\<close>

definition ceilSeconds :: "int \<Rightarrow> int" where
  "ceilSeconds ms = - ((- ms) div 1000)"

text \<open>
  \<^verbatim>\<open>checkRateLimit\<close>. \<open>now\<close> is the clock reading of the function itself, \<open>cnow\<close> the later
  reading taken inside the sweep. The record is looked up before the sweep runs; in the
  last branch \<^verbatim>\<open>record.count++\<close> mutates that object, which is still the one stored in
  the map unless the sweep has just deleted it. Both callers pass \<^verbatim>\<open>maxRequests\<close> and
  \<^verbatim>\<open>windowMs\<close>, so the default values of these parameters do not occur.
\<close>

definition checkRateLimit ::
  "int \<Rightarrow> int \<Rightarrow> jsstring \<Rightarrow> int \<Rightarrow> int \<Rightarrow> limiter \<Rightarrow> RateLimitResult \<times> limiter" where
  "checkRateLimit now cnow identifier maxRequests windowMs st =
     (let record = rateLimitMap st identifier;
          st1 = cleanupExpiredRecords cnow st
      in if record = None \<or> resetAt (the record) < now then
           (\<lparr>allowed = True, remaining = maxRequests - 1,
             resultResetAt = now + windowMs, resetIn = ceilSeconds windowMs\<rparr>,
            st1\<lparr>rateLimitMap := (rateLimitMap st1)
                   (identifier \<mapsto> \<lparr>count = 1, resetAt = now + windowMs\<rparr>)\<rparr>)
         else if count (the record) \<ge> maxRequests then
           (\<lparr>allowed = False, remaining = 0,
             resultResetAt = resetAt (the record),
             resetIn = ceilSeconds (resetAt (the record) - now)\<rparr>,
            st1)
         else
           (\<lparr>allowed = True, remaining = maxRequests - (count (the record) + 1),
             resultResetAt = resetAt (the record),
             resetIn = ceilSeconds (resetAt (the record) - now)\<rparr>,
            if rateLimitMap st1 identifier = None then st1
            else st1\<lparr>rateLimitMap := (rateLimitMap st1)
                        (identifier \<mapsto> (the record)\<lparr>count := count (the record) + 1\<rparr>)\<rparr>))"

text \<open>One call of \<^verbatim>\<open>checkRateLimit\<close> with its two clock readings.\<close>

record call =
  callNow :: int
  callSweep :: int
  callId :: jsstring
  callMax :: int
  callWindow :: int

fun run :: "limiter \<Rightarrow> call list \<Rightarrow> RateLimitResult list \<times> limiter" where
  "run st [] = ([], st)"
| "run st (c # cs) =
     (case checkRateLimit (callNow c) (callSweep c) (callId c) (callMax c) (callWindow c) st of
        (r, st') \<Rightarrow> (case run st' cs of (rs, st'') \<Rightarrow> (r # rs, st'')))"

definition step :: "call \<Rightarrow> limiter \<Rightarrow> RateLimitResult \<times> limiter" where
  "step c st = checkRateLimit (callNow c) (callSweep c) (callId c) (callMax c) (callWindow c) st"


text \<open>A call with the given identifier and policy at the readings \<open>(now, cnow)\<close>.\<close>

definition rlCall :: "jsstring \<Rightarrow> int \<Rightarrow> int \<Rightarrow> int \<times> int \<Rightarrow> call" where
  "rlCall i mx w t =
     \<lparr>callNow = fst t, callSweep = snd t, callId = i, callMax = mx, callWindow = w\<rparr>"

definition view :: "RateLimitResult \<Rightarrow> bool \<times> int \<times> int" where
  "view r = (allowed r, remaining r, resultResetAt r)"

subsection \<open>The limiter with the sweep switched off\<close>




section \<open>String helpers of the host language\<close>

text \<open>
  The code units that \<^verbatim>\<open>String.prototype.trim\<close> strips and that \<^verbatim>\<open>\s\<close> matches in a
  regular expression: WhiteSpace and LineTerminator of ECMAScript (TAB, LF, VT, FF, CR,
  SP, NBSP, U+1680, U+2000 to U+200A, U+2028, U+2029, U+202F, U+205F, U+3000, U+FEFF).
\<close>

definition isWhiteSpace :: "nat \<Rightarrow> bool" where
  "isWhiteSpace c \<longleftrightarrow>
     c = 9 \<or> c = 10 \<or> c = 11 \<or> c = 12 \<or> c = 13 \<or> c = 32 \<or> c = 160 \<or> c = 5760 \<or>
     (8192 \<le> c \<and> c \<le> 8202) \<or> c = 8232 \<or> c = 8233 \<or> c = 8239 \<or> c = 8287 \<or>
     c = 12288 \<or> c = 65279"

definition trimStart :: "jsstring \<Rightarrow> jsstring" where
  "trimStart s = dropWhile isWhiteSpace s"

definition trimEnd :: "jsstring \<Rightarrow> jsstring" where
  "trimEnd s = rev (dropWhile isWhiteSpace (rev s))"

definition trim :: "jsstring \<Rightarrow> jsstring" where
  "trim s = trimEnd (trimStart s)"

text \<open>
  \<^verbatim>\<open>s.slice(0, end)\<close> for an integer \<open>end\<close>: a negative \<open>end\<close> counts from the end of the
  string.
\<close>

definition slice0 :: "jsstring \<Rightarrow> int \<Rightarrow> jsstring" where
  "slice0 s e = (if e < 0 then take (nat (int (length s) + e)) s else take (nat e) s)"

section \<open>Input sanitizer (app/lib/utils)\<close>

text \<open>The class \<^verbatim>\<open>[\x00-\x1F\x7F]\<close>.\<close>

definition isControl :: "nat \<Rightarrow> bool" where
  "isControl c \<longleftrightarrow> c \<le> 31 \<or> c = 127"

text \<open>The class \<^verbatim>\<open>[<>'"`;{}[\]\\]\<close>: the characters \<^verbatim>\<open>< > ' " ` ; { } [ ] \\<close>.\<close>

definition isDangerous :: "nat \<Rightarrow> bool" where
  "isDangerous c \<longleftrightarrow>
     c = 60 \<or> c = 62 \<or> c = 39 \<or> c = 34 \<or> c = 96 \<or> c = 59 \<or> c = 123 \<or> c = 125 \<or>
     c = 91 \<or> c = 93 \<or> c = 92"

text \<open>The class \<^verbatim>\<open>[\u200B-\u200D\uFEFF]\<close>.\<close>

definition isZeroWidth :: "nat \<Rightarrow> bool" where
  "isZeroWidth c \<longleftrightarrow> (8203 \<le> c \<and> c \<le> 8205) \<or> c = 65279"

text \<open>
  \<^verbatim>\<open>replace(/\s+/g, " ")\<close>: every maximal run of whitespace becomes one space. The flag
  says whether the previous code unit belonged to a run that has already been replaced.
\<close>

fun collapseFrom :: "bool \<Rightarrow> jsstring \<Rightarrow> jsstring" where
  "collapseFrom inRun [] = []"
| "collapseFrom inRun (c # cs) =
     (if isWhiteSpace c then (if inRun then collapseFrom True cs else 32 # collapseFrom True cs)
      else c # collapseFrom False cs)"

definition collapseWhitespace :: "jsstring \<Rightarrow> jsstring" where
  "collapseWhitespace s = collapseFrom False s"

definition sanitizeString :: "jsstring \<Rightarrow> int \<Rightarrow> jsstring" where
  "sanitizeString input maxLength =
     (let sanitized = slice0 (trim input) maxLength;
          sanitized = filter (\<lambda>c. \<not> isControl c) sanitized;
          sanitized = filter (\<lambda>c. \<not> isDangerous c) sanitized;
          sanitized = collapseWhitespace sanitized;
          sanitized = filter (\<lambda>c. \<not> isZeroWidth c) sanitized
      in trim sanitized)"

text \<open>The call \<^verbatim>\<open>sanitizeString(input)\<close> with the default \<^verbatim>\<open>maxLength = 500\<close>.\<close>

definition sanitizeDefault :: "jsstring \<Rightarrow> jsstring" where
  "sanitizeDefault input = sanitizeString input 500"

text \<open>
  A text in which whitespace has been collapsed: every whitespace code unit is a space
  and no two of them are adjacent.
\<close>

fun collapsed :: "jsstring \<Rightarrow> bool" where
  "collapsed [] = True"
| "collapsed [c] = (isWhiteSpace c \<longrightarrow> c = 32)"
| "collapsed (c # d # cs) = ((isWhiteSpace c \<longrightarrow> c = 32 \<and> \<not> isWhiteSpace d) \<and> collapsed (d # cs))"

section \<open>Plans (app/lib/schema) and their normalization\<close>

datatype TaskStatus = not_started | in_progress | completed

record Task =
  taskId :: real
  taskTitle :: jsstring
  taskStatus :: TaskStatus
  taskSerial :: real

record Phase =
  phaseName :: jsstring
  phaseTasks :: "Task list"
  phaseSerial :: real

record ProjectPlan =
  planGoal :: jsstring
  planPhases :: "Phase list"

text \<open>
  The block "Normalize plan structure" of the generation action. The callbacks of the
  two \<^verbatim>\<open>map\<close> calls receive the element and its index; \<^verbatim>\<open>slice(0, MAX)\<close> keeps the first
  \<open>MAX\<close> elements.
\<close>

definition normalizeTask :: "nat \<times> Task \<Rightarrow> Task" where
  "normalizeTask = (\<lambda>(taskIndex, task).
     task\<lparr>taskSerial := real (taskIndex + 1), taskStatus := not_started\<rparr>)"

definition normalizePhase :: "nat \<times> Phase \<Rightarrow> Phase" where
  "normalizePhase = (\<lambda>(phaseIndex, phase).
     phase\<lparr>phaseSerial := real (phaseIndex + 1),
           phaseTasks := map normalizeTask
                           (enumerate 0 (take MAX_TASKS_PER_PHASE (phaseTasks phase)))\<rparr>)"

definition normalizePlan :: "ProjectPlan \<Rightarrow> ProjectPlan" where
  "normalizePlan plan =
     plan\<lparr>planPhases := map normalizePhase (enumerate 0 (take MAX_PHASES (planPhases plan)))\<rparr>"

text \<open>
  A plan as a model may emit it against the instructions: seven phases with 7, 6, 5, 0,
  1, 2 and 3 tasks, every serial 9 and every task already completed.
\<close>

definition overfullTask :: "nat \<Rightarrow> Task" where
  "overfullTask k =
     \<lparr>taskId = real (100 + k), taskTitle = js ''step'', taskStatus = completed, taskSerial = 9\<rparr>"

definition overfullPhase :: "nat \<Rightarrow> Phase" where
  "overfullPhase k =
     \<lparr>phaseName = js ''stage'', phaseTasks = map overfullTask [0..<k], phaseSerial = 9\<rparr>"

definition overfullPlan :: ProjectPlan where
  "overfullPlan = \<lparr>planGoal = js ''ship it'', planPhases = map overfullPhase [7, 6, 5, 0, 1, 2, 3]\<rparr>"

section \<open>JSON values and schema validation (app/lib/schema)\<close>

datatype json =
    JNull
  | JBool bool
  | JNum real
  | JStr jsstring
  | JArr "json list"
  | JObj "(jsstring \<times> json) list"

text \<open>
  An issue of a validation error: the path to the offending value and what is wrong with
  it. The path is what the handlers look at.
\<close>

datatype pathSeg = Key jsstring | Index nat

datatype issueCode = invalid_type | too_small | invalid_enum_value

record issue =
  path :: "pathSeg list"
  code :: issueCode

text \<open>
  A schema takes the path of the value and the value (\<open>None\<close> for \<^verbatim>\<open>undefined\<close>, the
  value of a missing key) and returns the issues or the parsed value. An object or array
  schema reports the issues of all its members.
\<close>

type_synonym 'a schema = "pathSeg list \<Rightarrow> json option \<Rightarrow> issue list + 'a"

definition both :: "issue list + 'a \<Rightarrow> issue list + 'b \<Rightarrow> issue list + ('a \<times> 'b)" where
  "both x y = (case x of
       Inl e \<Rightarrow> (case y of Inl f \<Rightarrow> Inl (e @ f) | Inr b \<Rightarrow> Inl e)
     | Inr a \<Rightarrow> (case y of Inl f \<Rightarrow> Inl f | Inr b \<Rightarrow> Inr (a, b)))"

fun collect :: "(issue list + 'a) list \<Rightarrow> issue list + 'a list" where
  "collect [] = Inr []"
| "collect (x # xs) = map_sum id (\<lambda>(a, as). a # as) (both x (collect xs))"

definition zString :: "jsstring schema" where
  "zString p v = (case v of Some (JStr s) \<Rightarrow> Inr s
                  | _ \<Rightarrow> Inl [\<lparr>path = p, code = invalid_type\<rparr>])"

text \<open>\<^verbatim>\<open>z.string().trim().min(1, ...)\<close>: the value is trimmed, then its length is checked.\<close>

definition zTrimmedNonEmpty :: "jsstring schema" where
  "zTrimmedNonEmpty p v = (case v of
       Some (JStr s) \<Rightarrow> (if length (trim s) < 1 then Inl [\<lparr>path = p, code = too_small\<rparr>]
                         else Inr (trim s))
     | _ \<Rightarrow> Inl [\<lparr>path = p, code = invalid_type\<rparr>])"

definition zNumber :: "real schema" where
  "zNumber p v = (case v of Some (JNum n) \<Rightarrow> Inr n
                  | _ \<Rightarrow> Inl [\<lparr>path = p, code = invalid_type\<rparr>])"

definition zBoolean :: "bool schema" where
  "zBoolean p v = (case v of Some (JBool b) \<Rightarrow> Inr b
                   | _ \<Rightarrow> Inl [\<lparr>path = p, code = invalid_type\<rparr>])"

definition zEnum :: "(jsstring \<times> 'a) list \<Rightarrow> 'a schema" where
  "zEnum options p v = (case v of
       Some (JStr s) \<Rightarrow> (case map_of options s of
                           Some a \<Rightarrow> Inr a
                         | None \<Rightarrow> Inl [\<lparr>path = p, code = invalid_enum_value\<rparr>])
     | _ \<Rightarrow> Inl [\<lparr>path = p, code = invalid_type\<rparr>])"

definition zOptional :: "'a schema \<Rightarrow> 'a option schema" where
  "zOptional inner p v = (case v of None \<Rightarrow> Inr None | Some x \<Rightarrow> map_sum id Some (inner p v))"

definition zArray :: "'a schema \<Rightarrow> 'a list schema" where
  "zArray element p v = (case v of
       Some (JArr xs) \<Rightarrow> collect (map (\<lambda>(i, x). element (p @ [Index i]) (Some x)) (enumerate 0 xs))
     | _ \<Rightarrow> Inl [\<lparr>path = p, code = invalid_type\<rparr>])"

text \<open>
  \<^verbatim>\<open>z.object({...})\<close>: anything but an object is one issue at the path of the value;
  the member schemas of an object get the value stored under their key. Unknown keys are
  dropped.
\<close>

definition zObject :: "((jsstring \<Rightarrow> pathSeg list) \<Rightarrow> (jsstring \<Rightarrow> json option) \<Rightarrow> issue list + 'a)
                        \<Rightarrow> 'a schema" where
  "zObject members p v = (case v of
       Some (JObj kvs) \<Rightarrow> members (\<lambda>k. p @ [Key k]) (map_of kvs)
     | _ \<Rightarrow> Inl [\<lparr>path = p, code = invalid_type\<rparr>])"

record GeneratePlanRequest =
  projectGoal :: jsstring
  experienceLevel :: jsstring
  timeAvailability :: jsstring
  deadline :: "jsstring option"
  regenerate :: "bool option"

definition sameNames :: "string list \<Rightarrow> (jsstring \<times> jsstring) list" where
  "sameNames names = map (\<lambda>n. (js n, js n)) names"

definition generatePlanPayloadSchema :: "GeneratePlanRequest schema" where
  "generatePlanPayloadSchema = zObject (\<lambda>loc get.
     map_sum id
       (\<lambda>(g, l, t, d, r). \<lparr>projectGoal = g, experienceLevel = l, timeAvailability = t,
                           deadline = d, regenerate = r\<rparr>)
       (both (zTrimmedNonEmpty (loc (js ''projectGoal'')) (get (js ''projectGoal'')))
       (both (zEnum (sameNames [''beginner'', ''intermediate'', ''advanced''])
                (loc (js ''experienceLevel'')) (get (js ''experienceLevel'')))
       (both (zEnum (sameNames [''3-5'', ''5-10'', ''10+''])
                (loc (js ''timeAvailability'')) (get (js ''timeAvailability'')))
       (both (zOptional zString (loc (js ''deadline'')) (get (js ''deadline'')))
             (zOptional zBoolean (loc (js ''regenerate'')) (get (js ''regenerate''))))))))"

definition taskStatusSchema :: "TaskStatus schema" where
  "taskStatusSchema = zEnum [(js ''not_started'', not_started), (js ''in_progress'', in_progress),
                             (js ''completed'', completed)]"

definition taskSchema :: "Task schema" where
  "taskSchema = zObject (\<lambda>loc get.
     map_sum id
       (\<lambda>(i, t, s, n). \<lparr>taskId = i, taskTitle = t, taskStatus = s, taskSerial = n\<rparr>)
       (both (zNumber (loc (js ''id'')) (get (js ''id'')))
       (both (zString (loc (js ''title'')) (get (js ''title'')))
       (both (taskStatusSchema (loc (js ''status'')) (get (js ''status'')))
             (zNumber (loc (js ''serial'')) (get (js ''serial'')))))))"

definition phaseSchema :: "Phase schema" where
  "phaseSchema = zObject (\<lambda>loc get.
     map_sum id
       (\<lambda>(n, ts, s). \<lparr>phaseName = n, phaseTasks = ts, phaseSerial = s\<rparr>)
       (both (zString (loc (js ''name'')) (get (js ''name'')))
       (both (zArray taskSchema (loc (js ''tasks'')) (get (js ''tasks'')))
             (zNumber (loc (js ''serial'')) (get (js ''serial''))))))"

definition projectPlanSchema :: "ProjectPlan schema" where
  "projectPlanSchema = zObject (\<lambda>loc get.
     map_sum id
       (\<lambda>(g, ps). \<lparr>planGoal = g, planPhases = ps\<rparr>)
       (both (zString (loc (js ''goal'')) (get (js ''goal'')))
             (zArray phaseSchema (loc (js ''phases'')) (get (js ''phases'')))))"

section \<open>Requests, responses and what a handler can throw\<close>

text \<open>
  The values the handlers tell apart in their \<^verbatim>\<open>catch\<close> blocks: a \<^verbatim>\<open>ZodError\<close> with its
  issues; an object with a \<^verbatim>\<open>status\<close> property, as the model client throws, with its
  status and message if it has them; any other \<^verbatim>\<open>Error\<close> with its message.
\<close>

datatype thrown =
    ZodError "issue list"
  | ApiError "int option" "jsstring option"
  | PlainError jsstring

text \<open>
  A request: its method, its headers, and the outcome of \<^verbatim>\<open>await request.json()\<close>
  (the message of the error it throws, or the parsed body).
\<close>

record request =
  httpMethod :: jsstring
  header :: "jsstring \<rightharpoonup> jsstring"
  bodyJson :: "jsstring + json"

text \<open>
  A response body is \<^verbatim>\<open>{success: false, message}\<close> with or without \<^verbatim>\<open>errors\<close>, a plan, or
  a stream of text chunks that ends normally or with an error.
\<close>

datatype body =
    Failure jsstring "issue list option"
  | PlanJson ProjectPlan
  | TextStream "jsstring list" bool

record response =
  status :: int
  body :: body
  headers :: "(jsstring \<times> jsstring) list"

datatype outcome = Returns response | Throws thrown

definition andThen :: "'e + 'a \<Rightarrow> ('a \<Rightarrow> 'e + 'b) \<Rightarrow> 'e + 'b" where
  "andThen x f = (case x of Inl e \<Rightarrow> Inl e | Inr a \<Rightarrow> f a)"

text \<open>A string or \<^verbatim>\<open>null\<close>/\<^verbatim>\<open>undefined\<close> used as a condition.\<close>

definition truthy :: "jsstring option \<Rightarrow> bool" where
  "truthy v = (case v of None \<Rightarrow> False | Some s \<Rightarrow> s \<noteq> [])"

text \<open>\<^verbatim>\<open>String(n)\<close> for an integer.\<close>

fun showNat :: "nat \<Rightarrow> jsstring" where
  "showNat n = (if n < 10 then [48 + n] else showNat (n div 10) @ [48 + n mod 10])"

declare showNat.simps [simp del]

definition showInt :: "int \<Rightarrow> jsstring" where
  "showInt i = (if i < 0 then 45 # showNat (nat (- i)) else showNat (nat i))"

subsection \<open>Client identifier (lib.server/rate-limit)\<close>

definition getClientIdentifier :: "request \<Rightarrow> jsstring" where
  "getClientIdentifier request =
     (let xForwardedFor = header request (js ''x-forwarded-for'');
          xRealIp = header request (js ''x-real-ip'');
          cfConnectingIp = header request (js ''cf-connecting-ip'')
      in if truthy xForwardedFor then trim (takeWhile (\<lambda>c. c \<noteq> 44) (the xForwardedFor))
         else if truthy xRealIp then the xRealIp
         else if truthy cfConnectingIp then the cfConnectingIp
         else js ''unknown'')"

subsection \<open>Configuration (lib.server/config)\<close>

record config =
  OPENAI_API_KEY :: jsstring
  OPENAI_MODEL :: jsstring

text \<open>
  \<^verbatim>\<open>getConfig\<close> validates \<^verbatim>\<open>process.env\<close> and throws an \<^verbatim>\<open>Error\<close> when it is invalid. The
  text the validation library gives a \<^verbatim>\<open>ZodError\<close> as its message is the parameter
  \<open>render\<close>.
\<close>

definition getConfig :: "(issue list \<Rightarrow> jsstring) \<Rightarrow> (jsstring \<rightharpoonup> jsstring) \<Rightarrow> thrown + config" where
  "getConfig render env =
     (case both (zString [Key (js ''OPENAI_API_KEY'')]
                   (map_option JStr (env (js ''OPENAI_API_KEY''))))
                (zEnum (sameNames [''gpt-3.5-turbo'', ''gpt-4'', ''gpt-4o'', ''gpt-4o-mini''])
                   [Key (js ''OPENAI_MODEL'')] (map_option JStr (env (js ''OPENAI_MODEL''))))
      of Inl issues \<Rightarrow> Inl (PlainError (js ''Invalid environment variables: '' @ render issues))
       | Inr (k, m) \<Rightarrow> Inr \<lparr>OPENAI_API_KEY = k, OPENAI_MODEL = m\<rparr>)"

subsection \<open>The surroundings of a request\<close>

record generatePrompt =
  rawUserGoal :: jsstring
  promptExperienceLevel :: jsstring
  promptTimeAvailability :: jsstring
  promptDeadline :: jsstring

record explainPrompt =
  userQuery :: GeneratePlanRequest
  generatedPlan :: ProjectPlan

datatype streamEvent = OutputTextDelta jsstring | OtherEvent jsstring

text \<open>
  Everything a handler reads from outside while it serves one request: the two clock
  readings of the rate limiter, \<^verbatim>\<open>process.env\<close>, the message text of a \<^verbatim>\<open>ZodError\<close>,
  \<^verbatim>\<open>JSON.parse\<close> (the message of its \<^verbatim>\<open>SyntaxError\<close>, or the value),
  \<^verbatim>\<open>new Date(s).toISOString()\<close> (\<open>None\<close> when it throws its \<^verbatim>\<open>RangeError\<close>), and the model
  client: its constructor \<^verbatim>\<open>new OpenAI({apiKey, timeout, maxRetries})\<close> gives the client or
  throws (\<open>Some\<close> the error; the client library decides which keys it refuses); the
  blocking call gives \<^verbatim>\<open>output_text\<close> or throws; the streaming call throws or gives the
  events of the stream and the error that ends it, if one does. The prompt templates are
  fixed texts around the values collected in the prompt records.
\<close>

record world =
  clockNow :: int
  clockSweep :: int
  processEnv :: "jsstring \<rightharpoonup> jsstring"
  zodMessage :: "issue list \<Rightarrow> jsstring"
  jsonParse :: "jsstring \<Rightarrow> jsstring + json"
  toISOString :: "jsstring \<Rightarrow> jsstring option"
  newOpenAI :: "config \<Rightarrow> thrown option"
  createResponse :: "config \<Rightarrow> generatePrompt \<Rightarrow> thrown + jsstring"
  createStream :: "config \<Rightarrow> explainPrompt \<Rightarrow> thrown + (streamEvent list \<times> thrown option)"

section \<open>Recovery of the model's JSON (app/routes/api.plans.generate)\<close>

text \<open>
  \<^verbatim>\<open>replace(/^```(?:json)?\s*\n?/, "")\<close>: an opening fence at the start of the text, the
  tag \<^verbatim>\<open>json\<close> if it follows, and all whitespace after it. The greedy \<^verbatim>\<open>\s*\<close> leaves no
  line feed for \<^verbatim>\<open>\n?\<close>.
\<close>

definition stripOpeningFence :: "jsstring \<Rightarrow> jsstring" where
  "stripOpeningFence s =
     (if take 3 s = js ''```'' then
        (let r = drop 3 s;
             r = (if take 4 r = js ''json'' then drop 4 r else r)
         in dropWhile isWhiteSpace r)
      else s)"

text \<open>
  \<^verbatim>\<open>replace(/\n?```\s*$/, "")\<close>: the expression matches at a position when, after an
  optional line feed, a fence follows and nothing but whitespace up to the end of the
  text. The first position where it matches is replaced, that is, the text is cut there.
\<close>

definition fenceToEnd :: "jsstring \<Rightarrow> bool" where
  "fenceToEnd r \<longleftrightarrow> take 3 r = js ''```'' \<and> list_all isWhiteSpace (drop 3 r)"

definition closingFenceAt :: "jsstring \<Rightarrow> bool" where
  "closingFenceAt s = (case s of [] \<Rightarrow> False
                       | c # r \<Rightarrow> if c = 10 then fenceToEnd r else fenceToEnd s)"

fun stripClosingFence :: "jsstring \<Rightarrow> jsstring" where
  "stripClosingFence [] = []"
| "stripClosingFence (c # cs) =
     (if closingFenceAt (c # cs) then [] else c # stripClosingFence cs)"

definition cleanedResponse :: "jsstring \<Rightarrow> jsstring" where
  "cleanedResponse aiResponse = trim (stripClosingFence (stripOpeningFence (trim aiResponse)))"

datatype logLevel = LogDebug | LogInfo | LogWarn | LogError

type_synonym logEntry = "logLevel \<times> jsstring list"

text \<open>
  The block "Parse and validate AI response" up to the parsed value: what it logs (the
  request id that starts every line is left out) and the value or the error it throws.
\<close>

definition parseAiResponse ::
  "(jsstring \<Rightarrow> jsstring + json) \<Rightarrow> jsstring \<Rightarrow> logEntry list \<times> (thrown + json)" where
  "parseAiResponse parse aiResponse =
     (case parse aiResponse of
        Inr parsedResponse \<Rightarrow> ([], Inr parsedResponse)
      | Inl parseError \<Rightarrow>
          (case parse (cleanedResponse aiResponse) of
             Inr parsedResponse \<Rightarrow>
               ([(LogWarn, [js ''Direct JSON parse failed, attempting markdown strip...'']),
                 (LogInfo, [js ''Successfully recovered from markdown-wrapped response''])],
                Inr parsedResponse)
           | Inl _ \<Rightarrow>
               ([(LogWarn, [js ''Direct JSON parse failed, attempting markdown strip...'']),
                 (LogError, [js ''Failed to parse AI response as JSON after fallback:'',
                             parseError]),
                 (LogError, [js ''Raw AI response:'', aiResponse])],
                Inl (PlainError (js ''Failed to parse AI response as JSON: '' @ parseError)))))"

text \<open>The model's text wrapped into a fence with the tag \<^verbatim>\<open>json\<close>.\<close>

definition fenced :: "jsstring \<Rightarrow> jsstring" where
  "fenced t = js ''```json'' @ [10] @ t @ [10] @ js ''```''"

section \<open>The generation handler (app/routes/api.plans.generate)\<close>

definition tooManyRequests :: "int \<Rightarrow> RateLimitResult \<Rightarrow> response" where
  "tooManyRequests limit rateLimit =
     \<lparr>status = 429,
      body = Failure (js ''Too many requests. Please try again in '' @ showInt (resetIn rateLimit)
                      @ js '' seconds.'') None,
      headers = [(js ''Retry-After'', showInt (resetIn rateLimit)),
                 (js ''X-RateLimit-Limit'', showInt limit),
                 (js ''X-RateLimit-Remaining'', js ''0''),
                 (js ''X-RateLimit-Reset'', showInt (resultResetAt rateLimit div 1000))]\<rparr>"

definition methodNotAllowed :: response where
  "methodNotAllowed = \<lparr>status = 405, body = Failure (js ''Method not allowed'') None, headers = []\<rparr>"

text \<open>The rate-limit check at the head of the handler.\<close>

definition generateRateLimit :: "world \<Rightarrow> request \<Rightarrow> limiter \<Rightarrow> RateLimitResult \<times> limiter" where
  "generateRateLimit w request st =
     checkRateLimit (clockNow w) (clockSweep w) (getClientIdentifier request)
       GENERATE_PLAN_MAX GENERATE_PLAN_WINDOW_MS st"

text \<open>
  The deadline line of the prompt: \<^verbatim>\<open>new Date(deadline).toISOString()\<close> for a deadline
  that is present and not empty, which throws for a text that is not a date.
\<close>

definition deadlineText :: "world \<Rightarrow> jsstring option \<Rightarrow> thrown + jsstring" where
  "deadlineText w d =
     (if truthy d then (case toISOString w (the d) of
                          None \<Rightarrow> Inl (PlainError (js ''Invalid time value''))
                        | Some isoText \<Rightarrow> Inr isoText)
      else Inr (js ''No deadline''))"

text \<open>
  The \<^verbatim>\<open>try\<close> block: the normalized plan, or what is thrown inside it. The calls of the
  logger between the steps have no effect on the result and are left out.
\<close>

definition generateTry :: "world \<Rightarrow> config \<Rightarrow> request \<Rightarrow> thrown + ProjectPlan" where
  "generateTry w cfg request =
     andThen (map_sum PlainError id (bodyJson request)) (\<lambda>payload.
     andThen (map_sum ZodError id (generatePlanPayloadSchema [] (Some payload))) (\<lambda>validatedData.
     andThen (deadlineText w (deadline validatedData)) (\<lambda>deadlineLine.
     andThen (createResponse w cfg
                \<lparr>rawUserGoal = sanitizeDefault (projectGoal validatedData),
                 promptExperienceLevel = experienceLevel validatedData,
                 promptTimeAvailability = timeAvailability validatedData,
                 promptDeadline = deadlineLine\<rparr>) (\<lambda>aiResponse.
     if aiResponse = [] then Inl (PlainError (js ''AI did not return any content''))
     else
     andThen (snd (parseAiResponse (jsonParse w) aiResponse)) (\<lambda>parsedResponse.
     andThen (map_sum ZodError id (projectPlanSchema [] (Some parsedResponse))) (\<lambda>plan.
     Inr (normalizePlan plan)))))))"

text \<open>The \<^verbatim>\<open>catch\<close> block.\<close>

definition isInputValidation :: "issue list \<Rightarrow> bool" where
  "isInputValidation issues =
     list_ex (\<lambda>i. case path i of
                     [] \<Rightarrow> False
                   | seg # _ \<Rightarrow> seg = Key (js ''projectGoal'') \<or> seg = Key (js ''experienceLevel'')
                                \<or> seg = Key (js ''timeAvailability'') \<or> seg = Key (js ''deadline''))
             issues"

definition generateCatch :: "thrown \<Rightarrow> response" where
  "generateCatch error = (case error of
       ZodError issues \<Rightarrow>
         (if isInputValidation issues then
            \<lparr>status = 400,
             body = Failure (js ''Invalid input data. Please check your form fields.'')
                      (Some issues),
             headers = []\<rparr>
          else
            \<lparr>status = 500,
             body = Failure (js ''AI generated an invalid response. Please try again.'')
                      (Some issues),
             headers = []\<rparr>)
     | ApiError apiStatus apiMessage \<Rightarrow>
         \<lparr>status = (if apiStatus = Some 429 then 429 else 500),
          body = Failure (js ''OpenAI API error: ''
                          @ (if truthy apiMessage then the apiMessage else js ''Unknown error''))
                   None,
          headers = []\<rparr>
     | PlainError errorMessage \<Rightarrow>
         \<lparr>status = 500, body = Failure (js ''Failed to generate plan: '' @ errorMessage) None,
          headers = []\<rparr>)"

text \<open>
  The handler: rate limit, method, configuration, construction of the model client,
  then the \<^verbatim>\<open>try\<close> block with its \<^verbatim>\<open>catch\<close>. \<^verbatim>\<open>getConfig()\<close> and \<^verbatim>\<open>new OpenAI({...})\<close> stand
  before the \<^verbatim>\<open>try\<close>: what either of them throws leaves the handler. The result is the
  response or the error that leaves the handler, and the state of the limiter.
\<close>

definition generateAction :: "world \<Rightarrow> request \<Rightarrow> limiter \<Rightarrow> outcome \<times> limiter" where
  "generateAction w request st =
     (case generateRateLimit w request st of (rateLimit, st') \<Rightarrow>
        (if \<not> allowed rateLimit then Returns (tooManyRequests GENERATE_PLAN_MAX rateLimit)
         else if httpMethod request \<noteq> js ''POST'' then Returns methodNotAllowed
         else case getConfig (zodMessage w) (processEnv w) of
                Inl error \<Rightarrow> Throws error
              | Inr cfg \<Rightarrow>
                  (case newOpenAI w cfg of
                     Some error \<Rightarrow> Throws error
                   | None \<Rightarrow>
                       (case generateTry w cfg request of
                          Inr plan \<Rightarrow>
                            Returns \<lparr>status = 200, body = PlanJson plan, headers = []\<rparr>
                        | Inl error \<Rightarrow> Returns (generateCatch error))),
         st'))"

section \<open>The explanation handler (app/routes/api.plans.explain)\<close>

definition requestSchema :: "(GeneratePlanRequest \<times> ProjectPlan) schema" where
  "requestSchema = zObject (\<lambda>loc get.
     both (generatePlanPayloadSchema (loc (js ''query'')) (get (js ''query'')))
          (projectPlanSchema (loc (js ''plan'')) (get (js ''plan''))))"

definition explainRateLimit :: "world \<Rightarrow> request \<Rightarrow> limiter \<Rightarrow> RateLimitResult \<times> limiter" where
  "explainRateLimit w request st =
     checkRateLimit (clockNow w) (clockSweep w) (getClientIdentifier request)
       EXPLAIN_PLAN_MAX EXPLAIN_PLAN_WINDOW_MS st"

text \<open>
  The loop over the stream: the text of every \<^verbatim>\<open>response.output_text.delta\<close> event
  that is not empty is forwarded, every other event is skipped.
\<close>

fun relay :: "streamEvent list \<Rightarrow> jsstring list" where
  "relay [] = []"
| "relay (OutputTextDelta content # chunks) =
     (if content \<noteq> [] then content # relay chunks else relay chunks)"
| "relay (OtherEvent _ # chunks) = relay chunks"

definition explainTry :: "world \<Rightarrow> config \<Rightarrow> request \<Rightarrow> thrown + response" where
  "explainTry w cfg request =
     andThen (map_sum PlainError id (bodyJson request)) (\<lambda>payload.
     andThen (map_sum ZodError id (requestSchema [] (Some payload))) (\<lambda>validatedData.
     andThen (createStream w cfg
                \<lparr>userQuery = fst validatedData, generatedPlan = snd validatedData\<rparr>)
       (\<lambda>stream.
     Inr \<lparr>status = 200,
          body = TextStream (relay (fst stream)) (snd stream \<noteq> None),
          headers = [(js ''Content-Type'', js ''text/plain; charset=utf-8''),
                     (js ''Cache-Control'', js ''no-cache''),
                     (js ''X-Content-Type-Options'', js ''nosniff'')]\<rparr>)))"

definition explainCatch :: "thrown \<Rightarrow> response" where
  "explainCatch error = (case error of
       ZodError issues \<Rightarrow>
         \<lparr>status = 400, body = Failure (js ''Invalid request data'') (Some issues), headers = []\<rparr>
     | _ \<Rightarrow>
         \<lparr>status = 500, body = Failure (js ''Failed to explain plan'') None, headers = []\<rparr>)"

text \<open>
  The handler, built like the generation handler, with \<^verbatim>\<open>getConfig()\<close> and
  \<^verbatim>\<open>new OpenAI({...})\<close> before the \<^verbatim>\<open>try\<close>. The response is returned when the stream has
  been opened; what the stream then delivers is part of the body.
\<close>

definition explainAction :: "world \<Rightarrow> request \<Rightarrow> limiter \<Rightarrow> outcome \<times> limiter" where
  "explainAction w request st =
     (case explainRateLimit w request st of (rateLimit, st') \<Rightarrow>
        (if \<not> allowed rateLimit then Returns (tooManyRequests EXPLAIN_PLAN_MAX rateLimit)
         else if httpMethod request \<noteq> js ''POST'' then Returns methodNotAllowed
         else case getConfig (zodMessage w) (processEnv w) of
                Inl error \<Rightarrow> Throws error
              | Inr cfg \<Rightarrow>
                  (case newOpenAI w cfg of
                     Some error \<Rightarrow> Throws error
                   | None \<Rightarrow>
                       (case explainTry w cfg request of
                          Inr streaming \<Rightarrow> Returns streaming
                        | Inl error \<Rightarrow> Returns (explainCatch error))),
         st'))"

section \<open>The two handlers on the shared limiter\<close>

datatype endpoint = Generate | Explain

definition route :: "endpoint \<Rightarrow> world \<Rightarrow> request \<Rightarrow> limiter \<Rightarrow> outcome \<times> limiter" where
  "route e = (case e of Generate \<Rightarrow> generateAction | Explain \<Rightarrow> explainAction)"

text \<open>
  The rate-limit check a request to an endpoint goes through, with the policy of that
  endpoint.
\<close>

definition rateLimitOf :: "endpoint \<Rightarrow> world \<Rightarrow> request \<Rightarrow> limiter \<Rightarrow> RateLimitResult \<times> limiter" where
  "rateLimitOf e = (case e of Generate \<Rightarrow> generateRateLimit | Explain \<Rightarrow> explainRateLimit)"

text \<open>Requests served one after the other by the same process.\<close>

fun serve :: "limiter \<Rightarrow> (endpoint \<times> world \<times> request) list \<Rightarrow> outcome list \<times> limiter" where
  "serve st [] = ([], st)"
| "serve st ((e, w, request) # rest) =
     (case route e w request st of
        (out, st') \<Rightarrow> (case serve st' rest of (outs, st'') \<Rightarrow> (out # outs, st'')))"

section \<open>Concrete surroundings for evaluating the handlers\<close>

definition emptyLimiter :: limiter where
  "emptyLimiter = \<lparr>rateLimitMap = Map.empty, lastCleanup = 0\<rparr>"

text \<open>
  A stand-in for \<^verbatim>\<open>JSON.parse\<close> that knows the literals \<^verbatim>\<open>null\<close>, \<^verbatim>\<open>true\<close>, \<^verbatim>\<open>false\<close> and
  the empty object, surrounded by JSON whitespace (space, TAB, LF, CR), and throws on
  everything else.
\<close>

definition isJsonWhiteSpace :: "nat \<Rightarrow> bool" where
  "isJsonWhiteSpace c \<longleftrightarrow> c = 32 \<or> c = 9 \<or> c = 10 \<or> c = 13"

definition jsonTrim :: "jsstring \<Rightarrow> jsstring" where
  "jsonTrim s = rev (dropWhile isJsonWhiteSpace (rev (dropWhile isJsonWhiteSpace s)))"

definition literalParse :: "jsstring \<Rightarrow> jsstring + json" where
  "literalParse s =
     (let t = jsonTrim s
      in if t = js ''null'' then Inr JNull
         else if t = js ''true'' then Inr (JBool True)
         else if t = js ''false'' then Inr (JBool False)
         else if t = js ''{}'' then Inr (JObj [])
         else Inl (js ''Unexpected token''))"

definition goodEnv :: "jsstring \<rightharpoonup> jsstring" where
  "goodEnv = [js ''OPENAI_API_KEY'' \<mapsto> js ''sk-test'', js ''OPENAI_MODEL'' \<mapsto> js ''gpt-4o-mini'']"

text \<open>An environment that passes the schema of \<^verbatim>\<open>getConfig\<close> with an empty API key.\<close>

definition emptyKeyEnv :: "jsstring \<rightharpoonup> jsstring" where
  "emptyKeyEnv = [js ''OPENAI_API_KEY'' \<mapsto> [], js ''OPENAI_MODEL'' \<mapsto> js ''gpt-4o-mini'']"

text \<open>
  A world at time \<open>t\<close> with the given environment, in which every date is valid, the
  constructor of the model client throws for an empty key and for no other, the model
  answers the blocking call with the text \<open>reply\<close> and the streaming call with the
  chunks \<^verbatim>\<open>"Hello "\<close>, \<^verbatim>\<open>"**world**"\<close>, \<^verbatim>\<open>"!"\<close> and an event of another type.
\<close>

definition stubWorld :: "int \<Rightarrow> (jsstring \<rightharpoonup> jsstring) \<Rightarrow> jsstring \<Rightarrow> world" where
  "stubWorld t env reply =
     \<lparr>clockNow = t, clockSweep = t, processEnv = env,
      zodMessage = (\<lambda>issues. js ''invalid''),
      jsonParse = literalParse,
      toISOString = Some,
      newOpenAI = (\<lambda>cfg. if OPENAI_API_KEY cfg = []
                         then Some (PlainError (js ''Missing credentials''))
                         else None),
      createResponse = (\<lambda>cfg prompt. Inr reply),
      createStream = (\<lambda>cfg prompt.
        Inr ([OutputTextDelta (js ''Hello ''), OtherEvent (js ''response.in_progress''),
              OutputTextDelta (js ''**world**''), OutputTextDelta (js ''!'')], None))\<rparr>"

definition requestFrom :: "string \<Rightarrow> string \<Rightarrow> jsstring + json \<Rightarrow> request" where
  "requestFrom client method payload =
     \<lparr>httpMethod = js method, header = [js ''x-forwarded-for'' \<mapsto> js client],
      bodyJson = payload\<rparr>"

text \<open>A payload that the form could send, and the same with \<^verbatim>\<open>regenerate: "yes"\<close>.\<close>

definition formPayload :: json where
  "formPayload = JObj [(js ''projectGoal'', JStr (js ''Build a Flutter expense app'')),
                       (js ''experienceLevel'', JStr (js ''beginner'')),
                       (js ''timeAvailability'', JStr (js ''3-5''))]"

definition regeneratePayload :: json where
  "regeneratePayload = JObj [(js ''projectGoal'', JStr (js ''Build a Flutter expense app'')),
                             (js ''experienceLevel'', JStr (js ''beginner'')),
                             (js ''timeAvailability'', JStr (js ''3-5'')),
                             (js ''regenerate'', JStr (js ''yes''))]"

definition statusOf :: "outcome \<Rightarrow> int option" where
  "statusOf out = (case out of Returns r \<Rightarrow> Some (status r) | Throws _ \<Rightarrow> None)"

section \<open>Where the issues of a validation lie\<close>

definition issuesOf :: "issue list + 'a \<Rightarrow> issue set" where
  "issuesOf x = (case x of Inl e \<Rightarrow> set e | Inr _ \<Rightarrow> {})"

text \<open>The issues at the path \<open>p\<close> or below it.\<close>

definition below :: "pathSeg list \<Rightarrow> issue set" where
  "below p = {i. take (length p) (path i) = p}"

section \<open>Properties of the rate limiter\<close>

text \<open>Definitions to unfold when a term is evaluated.\<close>

lemmas js_eval = js_def trim_def trimStart_def trimEnd_def isWhiteSpace_def
lemmas limiter_eval = checkRateLimit_def cleanupExpiredRecords_def CLEANUP_INTERVAL_def
  GENERATE_PLAN_MAX_def GENERATE_PLAN_WINDOW_MS_def EXPLAIN_PLAN_MAX_def EXPLAIN_PLAN_WINDOW_MS_def
  ceilSeconds_def emptyLimiter_def
lemmas schema_eval = zObject_def zString_def zTrimmedNonEmpty_def zNumber_def zBoolean_def
  zEnum_def zOptional_def zArray_def both_def sameNames_def generatePlanPayloadSchema_def
  taskStatusSchema_def taskSchema_def phaseSchema_def projectPlanSchema_def requestSchema_def

lemma cleanup_lookup:
  "rateLimitMap (cleanupExpiredRecords now st) k =
     (if now - lastCleanup st < CLEANUP_INTERVAL then rateLimitMap st k
      else case rateLimitMap st k of None \<Rightarrow> None
           | Some r \<Rightarrow> if resetAt r < now then None else Some r)"
  by (simp add: cleanupExpiredRecords_def)

lemma check_fresh:
  assumes "rateLimitMap st i = None \<or> (\<exists>r. rateLimitMap st i = Some r \<and> resetAt r < now)"
  shows "fst (checkRateLimit now cnow i mx w st) =
           \<lparr>allowed = True, remaining = mx - 1, resultResetAt = now + w,
            resetIn = ceilSeconds w\<rparr>"
    and "rateLimitMap (snd (checkRateLimit now cnow i mx w st)) i =
           Some \<lparr>count = 1, resetAt = now + w\<rparr>"
  using assms by (auto simp: checkRateLimit_def Let_def)

lemma check_live:
  assumes "rateLimitMap st i = Some r" "\<not> resetAt r < now" "\<not> resetAt r < cnow"
  shows "fst (checkRateLimit now cnow i mx w st) =
           (if count r \<ge> mx
            then \<lparr>allowed = False, remaining = 0, resultResetAt = resetAt r,
                  resetIn = ceilSeconds (resetAt r - now)\<rparr>
            else \<lparr>allowed = True, remaining = mx - (count r + 1), resultResetAt = resetAt r,
                  resetIn = ceilSeconds (resetAt r - now)\<rparr>)"
    and "rateLimitMap (snd (checkRateLimit now cnow i mx w st)) i =
           Some (if count r \<ge> mx then r else r\<lparr>count := count r + 1\<rparr>)"
  using assms by (auto simp: checkRateLimit_def Let_def cleanup_lookup)

lemma run_Cons_fst:
  "fst (run st (c # cs)) = fst (step c st) # fst (run (snd (step c st)) cs)"
  by (simp add: step_def split: prod.splits)

lemma run_Cons_snd:
  "snd (run st (c # cs)) = snd (run (snd (step c st)) cs)"
  by (simp add: step_def split: prod.splits)

text \<open>
  C2. Fixed-window admission with \<open>max = 5\<close> and \<open>windowMs = 60000\<close>. An identifier without
  a bucket makes seven calls; \<open>n\<^sub>k\<close> is the clock reading of the \<open>k\<close>-th call and \<open>s\<^sub>k\<close> the
  reading of its sweep. The clock does not run backwards, the first six calls fall into
  the window opened by the first (up to and including its \<open>resetAt = n\<^sub>1 + 60000\<close>), the
  seventh comes after it. Then calls 1 to 5 are allowed with remaining 4, 3, 2, 1, 0 and
  report that window's \<open>resetAt\<close>; call 6 is refused with remaining 0 and the same \<open>resetAt\<close>,
  and the bucket's count is 5 before and after it; call 7 is allowed with remaining
  \<open>max - 1 = 4\<close> and opens a fresh window \<open>n\<^sub>7 + 60000\<close> with count 1.
\<close>

theorem checkRateLimit_fixed_window:
  assumes fresh: "rateLimitMap st i = None"
    and clk: "n1 \<le> s1" "s1 \<le> n2" "n2 \<le> s2" "s2 \<le> n3" "n3 \<le> s3" "s3 \<le> n4" "n4 \<le> s4"
             "s4 \<le> n5" "n5 \<le> s5" "s5 \<le> n6" "n6 \<le> s6" "s6 \<le> n1 + 60000"
    and later: "n1 + 60000 < n7"
  shows "map view (fst (run st (map (rlCall i 5 60000)
            [(n1, s1), (n2, s2), (n3, s3), (n4, s4), (n5, s5), (n6, s6), (n7, s7)]))) =
         [(True, 4, n1 + 60000), (True, 3, n1 + 60000), (True, 2, n1 + 60000),
          (True, 1, n1 + 60000), (True, 0, n1 + 60000), (False, 0, n1 + 60000),
          (True, 4, n7 + 60000)]
       \<and> rateLimitMap (snd (run st (map (rlCall i 5 60000)
            [(n1, s1), (n2, s2), (n3, s3), (n4, s4), (n5, s5)]))) i
           = Some \<lparr>count = 5, resetAt = n1 + 60000\<rparr>
       \<and> rateLimitMap (snd (run st (map (rlCall i 5 60000)
            [(n1, s1), (n2, s2), (n3, s3), (n4, s4), (n5, s5), (n6, s6)]))) i
           = Some \<lparr>count = 5, resetAt = n1 + 60000\<rparr>
       \<and> rateLimitMap (snd (run st (map (rlCall i 5 60000)
            [(n1, s1), (n2, s2), (n3, s3), (n4, s4), (n5, s5), (n6, s6), (n7, s7)]))) i
           = Some \<lparr>count = 1, resetAt = n7 + 60000\<rparr>"
proof -
  define c where "c = rlCall i 5 60000"
  have stp: "step (c (n, s)) x = checkRateLimit n s i 5 60000 x" for n s x
    by (simp add: c_def step_def rlCall_def)
  define st1 where "st1 = snd (step (c (n1, s1)) st)"
  define st2 where "st2 = snd (step (c (n2, s2)) st1)"
  define st3 where "st3 = snd (step (c (n3, s3)) st2)"
  define st4 where "st4 = snd (step (c (n4, s4)) st3)"
  define st5 where "st5 = snd (step (c (n5, s5)) st4)"
  define st6 where "st6 = snd (step (c (n6, s6)) st5)"
  define st7 where "st7 = snd (step (c (n7, s7)) st6)"
  have r1: "view (fst (step (c (n1, s1)) st)) = (True, 4, n1 + 60000)"
    and b1: "rateLimitMap st1 i = Some \<lparr>count = 1, resetAt = n1 + 60000\<rparr>"
    using check_fresh[of st i n1 s1 5 60000] fresh by (simp_all add: stp st1_def view_def)
  have r2: "view (fst (step (c (n2, s2)) st1)) = (True, 3, n1 + 60000)"
    and b2: "rateLimitMap st2 i = Some \<lparr>count = 2, resetAt = n1 + 60000\<rparr>"
    using check_live[OF b1, of n2 s2 5 60000] clk by (simp_all add: stp st2_def view_def)
  have r3: "view (fst (step (c (n3, s3)) st2)) = (True, 2, n1 + 60000)"
    and b3: "rateLimitMap st3 i = Some \<lparr>count = 3, resetAt = n1 + 60000\<rparr>"
    using check_live[OF b2, of n3 s3 5 60000] clk by (simp_all add: stp st3_def view_def)
  have r4: "view (fst (step (c (n4, s4)) st3)) = (True, 1, n1 + 60000)"
    and b4: "rateLimitMap st4 i = Some \<lparr>count = 4, resetAt = n1 + 60000\<rparr>"
    using check_live[OF b3, of n4 s4 5 60000] clk by (simp_all add: stp st4_def view_def)
  have r5: "view (fst (step (c (n5, s5)) st4)) = (True, 0, n1 + 60000)"
    and b5: "rateLimitMap st5 i = Some \<lparr>count = 5, resetAt = n1 + 60000\<rparr>"
    using check_live[OF b4, of n5 s5 5 60000] clk by (simp_all add: stp st5_def view_def)
  have r6: "view (fst (step (c (n6, s6)) st5)) = (False, 0, n1 + 60000)"
    and b6: "rateLimitMap st6 i = Some \<lparr>count = 5, resetAt = n1 + 60000\<rparr>"
    using check_live[OF b5, of n6 s6 5 60000] clk by (simp_all add: stp st6_def view_def)
  have r7: "view (fst (step (c (n7, s7)) st6)) = (True, 4, n7 + 60000)"
    and b7: "rateLimitMap st7 i = Some \<lparr>count = 1, resetAt = n7 + 60000\<rparr>"
    using check_fresh[of st6 i n7 s7 5 60000] b6 later by (simp_all add: stp st7_def view_def)
  show ?thesis
    unfolding c_def[symmetric] list.map run_Cons_fst run_Cons_snd
    using r1 r2 r3 r4 r5 r6 r7 b5 b6 b7
    by (simp add: st1_def st2_def st3_def st4_def st5_def st6_def st7_def)
qed

theorem checkRateLimit_fixed_window_witness:
  "rateLimitMap \<lparr>rateLimitMap = Map.empty, lastCleanup = 0\<rparr> (js ''10.0.0.7'') = None
   \<and> map view (fst (run \<lparr>rateLimitMap = Map.empty, lastCleanup = 0\<rparr>
        (map (rlCall (js ''10.0.0.7'') 5 60000)
           [(1000, 1000), (2000, 2001), (3000, 3000), (4000, 4002), (5000, 5000),
            (61000, 61000), (61001, 61003)]))) =
       [(True, 4, 61000), (True, 3, 61000), (True, 2, 61000), (True, 1, 61000),
        (True, 0, 61000), (False, 0, 61000), (True, 4, 121001)]"
  using checkRateLimit_fixed_window[of "\<lparr>rateLimitMap = Map.empty, lastCleanup = 0\<rparr>"
      "js ''10.0.0.7''" 1000 1000 2000 2001 3000 3000 4000 4002 5000 5000 61000 61000 61001 61003]
  by simp







section \<open>Properties of the sanitizer\<close>

lemma length_trim: "length (trim s) \<le> length s"
  unfolding trim_def trimEnd_def trimStart_def
  by (metis length_dropWhile_le length_rev le_trans)

lemma length_collapseFrom: "length (collapseFrom b s) \<le> length s"
  by (induction s arbitrary: b) (auto simp: le_SucI)

text \<open>With a bound that is not negative the result is never longer than the bound.\<close>

lemma sanitizeString_length:
  assumes n: "0 \<le> n"
  shows "int (length (sanitizeString s n)) \<le> n"
proof -
  let ?a = "slice0 (trim s) n"
  let ?b = "filter (\<lambda>c. \<not> isControl c) ?a"
  let ?c = "filter (\<lambda>c. \<not> isDangerous c) ?b"
  let ?d = "collapseWhitespace ?c"
  let ?e = "filter (\<lambda>c. \<not> isZeroWidth c) ?d"
  have "length (trim ?e) \<le> length ?e" by (rule length_trim)
  also have "\<dots> \<le> length ?d" by (rule length_filter_le)
  also have "\<dots> \<le> length ?c" by (simp add: collapseWhitespace_def length_collapseFrom)
  also have "\<dots> \<le> length ?b" by (rule length_filter_le)
  also have "\<dots> \<le> length ?a" by (rule length_filter_le)
  finally have "length (sanitizeString s n) \<le> length ?a"
    by (simp add: sanitizeString_def Let_def)
  moreover have "int (length ?a) \<le> n" using n by (simp add: slice0_def)
  ultimately show ?thesis by linarith
qed

lemma space_is_white: "isWhiteSpace 32"
  by (simp add: isWhiteSpace_def)

lemma collapsed_Cons: "collapsed (c # cs) \<Longrightarrow> collapsed cs"
  by (cases cs) simp_all

lemma collapseFrom_collapsed:
  "collapsed (collapseFrom b xs) \<and>
   (b \<longrightarrow> collapseFrom b xs = [] \<or> \<not> isWhiteSpace (hd (collapseFrom b xs)))"
proof (induction xs arbitrary: b)
  case Nil
  show ?case by simp
next
  case (Cons c cs)
  note t = Cons.IH[of True] and f = Cons.IH[of False]
  show ?case
  proof (cases "isWhiteSpace c")
    case True
    with t show ?thesis
      by (cases "collapseFrom True cs") (auto simp: space_is_white)
  next
    case False
    with f show ?thesis
      by (cases "collapseFrom False cs") auto
  qed
qed

lemma collapseFrom_id:
  "collapsed ys \<Longrightarrow> (b \<longrightarrow> ys = [] \<or> \<not> isWhiteSpace (hd ys)) \<Longrightarrow> collapseFrom b ys = ys"
proof (induction ys arbitrary: b rule: collapsed.induct)
  case 1
  show ?case by simp
next
  case (2 c)
  then show ?case by auto
next
  case (3 c d cs)
  show ?case
  proof (cases "isWhiteSpace c")
    case True
    with "3.prems" have c: "c = 32" "\<not> isWhiteSpace d" "\<not> b" by auto
    from "3.IH"[of True] "3.prems" c have "collapseFrom True (d # cs) = d # cs" by simp
    with True c show ?thesis by simp
  next
    case False
    from "3.IH"[of False] "3.prems" have "collapseFrom False (d # cs) = d # cs" by simp
    with False show ?thesis by simp
  qed
qed

lemma collapsed_append: "collapsed (xs @ ys) \<Longrightarrow> collapsed xs"
proof (induction xs rule: collapsed.induct)
  case 1
  show ?case by simp
next
  case (2 c)
  then show ?case by (cases ys) auto
next
  case (3 c d cs)
  then show ?case by auto
qed

lemma collapsed_dropWhile: "collapsed xs \<Longrightarrow> collapsed (dropWhile P xs)"
  by (induction xs) (auto dest: collapsed_Cons)

lemma trimEnd_prefix: "\<exists>w. s = trimEnd s @ w \<and> list_all isWhiteSpace w"
proof -
  have "rev (dropWhile isWhiteSpace (rev s)) @ rev (takeWhile isWhiteSpace (rev s))
        = rev (takeWhile isWhiteSpace (rev s) @ dropWhile isWhiteSpace (rev s))"
    by (simp only: rev_append)
  also have "\<dots> = rev (rev s)" by (simp only: takeWhile_dropWhile_id)
  finally have "s = trimEnd s @ rev (takeWhile isWhiteSpace (rev s))"
    by (simp add: trimEnd_def)
  moreover have "list_all isWhiteSpace (rev (takeWhile isWhiteSpace (rev s)))"
    by (auto simp: list_all_iff dest: set_takeWhileD)
  ultimately show ?thesis by blast
qed

lemma collapsed_trim: "collapsed xs \<Longrightarrow> collapsed (trim xs)"
proof -
  assume "collapsed xs"
  then have c: "collapsed (trimStart xs)" by (simp add: trimStart_def collapsed_dropWhile)
  from trimEnd_prefix[of "trimStart xs"] obtain w where "trimStart xs = trimEnd (trimStart xs) @ w"
    by blast
  with c have "collapsed (trimEnd (trimStart xs) @ w)" by simp
  then show ?thesis unfolding trim_def by (rule collapsed_append)
qed

lemma trimEnd_last: "trimEnd s = [] \<or> \<not> isWhiteSpace (last (trimEnd s))"
proof (cases "dropWhile isWhiteSpace (rev s)")
  case Nil
  then show ?thesis by (simp add: trimEnd_def)
next
  case (Cons a as)
  then have "\<not> isWhiteSpace a" by (metis hd_dropWhile list.distinct(1) list.sel(1))
  with Cons show ?thesis by (simp add: trimEnd_def)
qed

lemma trimStart_hd: "trimStart s = [] \<or> \<not> isWhiteSpace (hd (trimStart s))"
  unfolding trimStart_def by (metis hd_dropWhile)

lemma trimStart_id: "s = [] \<or> \<not> isWhiteSpace (hd s) \<Longrightarrow> trimStart s = s"
  by (cases s) (auto simp: trimStart_def)

lemma trimEnd_id: "s = [] \<or> \<not> isWhiteSpace (last s) \<Longrightarrow> trimEnd s = s"
proof (cases s rule: rev_cases)
  case Nil
  then show ?thesis by (simp add: trimEnd_def)
next
  case (snoc ys y)
  assume "s = [] \<or> \<not> isWhiteSpace (last s)"
  with snoc show ?thesis by (simp add: trimEnd_def)
qed

lemma trim_hd: "trim s = [] \<or> \<not> isWhiteSpace (hd (trim s))"
proof (cases "trim s = []")
  case True
  then show ?thesis by simp
next
  case False
  from trimEnd_prefix[of "trimStart s"] obtain w where
    w: "trimStart s = trim s @ w" by (auto simp: trim_def)
  with False have "hd (trimStart s) = hd (trim s)" by (metis hd_append2)
  moreover from w False have "trimStart s \<noteq> []" by auto
  ultimately show ?thesis using trimStart_hd[of s] by auto
qed

lemma trim_idem: "trim (trim s) = trim s"
proof -
  have "trimStart (trim s) = trim s" using trim_hd[of s] by (rule trimStart_id)
  moreover have "trimEnd (trim s) = trim s"
    using trimEnd_last[of "trimStart s"] unfolding trim_def[symmetric] by (rule trimEnd_id)
  ultimately show ?thesis by (simp add: trim_def)
qed

lemma collapseFrom_chars:
  "c \<in> set (collapseFrom b xs) \<Longrightarrow> c = 32 \<or> (c \<in> set xs \<and> \<not> isWhiteSpace c)"
  by (induction xs arbitrary: b) (auto split: if_splits)

lemma set_trim: "set (trim s) \<subseteq> set s"
proof
  fix c assume "c \<in> set (trim s)"
  then have "c \<in> set (dropWhile isWhiteSpace (rev (dropWhile isWhiteSpace s)))"
    by (simp add: trim_def trimEnd_def trimStart_def)
  then have "c \<in> set (rev (dropWhile isWhiteSpace s))" by (rule set_dropWhileD)
  then have "c \<in> set (dropWhile isWhiteSpace s)" by simp
  then show "c \<in> set s" by (rule set_dropWhileD)
qed

lemma set_slice0: "set (slice0 s e) \<subseteq> set s"
  by (auto simp: slice0_def dest: in_set_takeD)

lemma sanitizeString_fixed:
  assumes n: "0 \<le> n" and len: "int (length r) \<le> n"
    and tr: "trim r = r" and col: "collapsed r"
    and chars: "\<forall>c \<in> set r. \<not> isControl c \<and> \<not> isDangerous c \<and> \<not> isZeroWidth c"
  shows "sanitizeString r n = r"
proof -
  from n len have a: "slice0 r n = r" by (simp add: slice0_def)
  from chars have b: "filter (\<lambda>c. \<not> isControl c) r = r"
    and c: "filter (\<lambda>c. \<not> isDangerous c) r = r"
    and e: "filter (\<lambda>c. \<not> isZeroWidth c) r = r"
    by (simp_all add: filter_id_conv)
  from col have d: "collapseWhitespace r = r"
    by (simp add: collapseWhitespace_def collapseFrom_id)
  show ?thesis
    unfolding sanitizeString_def Let_def by (simp only: tr a b c d e)
qed

text \<open>
  On an input without the code units U+200B to U+200D, and with a bound that is not
  negative, sanitizing twice is sanitizing once.
\<close>

lemma sanitizeString_idempotent_without_zero_width:
  assumes n: "0 \<le> n" and nozw: "\<forall>c \<in> set s. \<not> (8203 \<le> c \<and> c \<le> 8205)"
  shows "sanitizeString (sanitizeString s n) n = sanitizeString s n"
proof -
  let ?x = "filter (\<lambda>c. \<not> isDangerous c) (filter (\<lambda>c. \<not> isControl c) (slice0 (trim s) n))"
  let ?y = "collapseWhitespace ?x"
  have xs: "set ?x \<subseteq> set s" using set_slice0[of "trim s" n] set_trim[of s] by auto
  have ychars: "\<not> isControl c \<and> \<not> isDangerous c \<and> \<not> isZeroWidth c" if "c \<in> set ?y" for c
  proof -
    from that have "c = 32 \<or> (c \<in> set ?x \<and> \<not> isWhiteSpace c)"
      unfolding collapseWhitespace_def by (rule collapseFrom_chars)
    then show ?thesis
    proof
      assume "c = 32"
      then show ?thesis by (simp add: isControl_def isDangerous_def isZeroWidth_def)
    next
      assume c: "c \<in> set ?x \<and> \<not> isWhiteSpace c"
      with xs nozw have "\<not> (8203 \<le> c \<and> c \<le> 8205)" by blast
      moreover from c have "c \<noteq> 65279" by (auto simp: isWhiteSpace_def)
      ultimately have "\<not> isZeroWidth c" by (simp add: isZeroWidth_def)
      with c show ?thesis by auto
    qed
  qed
  have "\<forall>c \<in> set ?y. \<not> isZeroWidth c" using ychars by blast
  then have z: "filter (\<lambda>c. \<not> isZeroWidth c) ?y = ?y" by (simp only: filter_id_conv)
  have r: "sanitizeString s n = trim ?y"
    unfolding sanitizeString_def Let_def z by (rule refl)
  have "collapsed (collapseFrom False ?x)" using collapseFrom_collapsed[of False ?x] by blast
  then have "collapsed ?y" by (simp only: collapseWhitespace_def)
  then have col: "collapsed (trim ?y)" by (rule collapsed_trim)
  have chars: "\<forall>c \<in> set (trim ?y). \<not> isControl c \<and> \<not> isDangerous c \<and> \<not> isZeroWidth c"
    using ychars set_trim[of ?y] by blast
  have len: "int (length (trim ?y)) \<le> n"
    using sanitizeString_length[OF n, of s] unfolding r .
  have "sanitizeString (trim ?y) n = trim ?y"
    using n len trim_idem col chars by (rule sanitizeString_fixed)
  then show ?thesis unfolding r .
qed

text \<open>
  C4. The sanitizer is not idempotent. On the input \<open>a\<close>, space, U+200B, space, \<open>b\<close> with
  the default bound 500 the whitespace is collapsed first (the two spaces are not
  adjacent yet), then the zero-width space between them is removed, so the result has two
  adjacent spaces; sanitizing that result again collapses them into one.
\<close>

theorem sanitizeString_not_idempotent:
  "sanitizeDefault (js ''a '' @ [8203] @ js '' b'') = js ''a  b''
   \<and> sanitizeDefault (sanitizeDefault (js ''a '' @ [8203] @ js '' b'')) = js ''a b''
   \<and> sanitizeDefault (sanitizeDefault (js ''a '' @ [8203] @ js '' b''))
       \<noteq> sanitizeDefault (js ''a '' @ [8203] @ js '' b'')"
  by (simp add: sanitizeDefault_def sanitizeString_def trim_def trimStart_def trimEnd_def
      slice0_def collapseWhitespace_def isWhiteSpace_def isControl_def isDangerous_def
      isZeroWidth_def js_def)

section \<open>Properties of the normalization\<close>

lemma map_index_enumerate:
  "map (\<lambda>(i, x). f i) (enumerate 0 xs) = map f [0..<length xs]"
proof -
  have "map (\<lambda>(i, x). f i) (enumerate 0 xs) = map (f \<circ> fst) (enumerate 0 xs)"
    by (simp add: case_prod_unfold comp_def)
  also have "\<dots> = map f (map fst (enumerate 0 xs))"
    by (simp only: map_map)
  also have "map fst (enumerate 0 xs) = [0..<length xs]"
    by (simp add: map_fst_enumerate)
  finally show ?thesis .
qed

lemma map_elem_enumerate:
  "map (\<lambda>(i, x). g x) (enumerate 0 xs) = map g xs"
proof -
  have "map (\<lambda>(i, x). g x) (enumerate 0 xs) = map (g \<circ> snd) (enumerate 0 xs)"
    by (simp add: case_prod_unfold comp_def)
  also have "\<dots> = map g (map snd (enumerate 0 xs))"
    by (simp only: map_map)
  also have "map snd (enumerate 0 xs) = xs"
    by (simp add: map_snd_enumerate)
  finally show ?thesis .
qed

lemma serials_upto: "map (\<lambda>i. real (i + 1)) [0..<n] = map real [1..<Suc n]"
proof -
  have "map (\<lambda>i. real (i + 1)) [0..<n] = map real (map Suc [0..<n])"
    by (simp add: comp_def)
  also have "map Suc [0..<n] = [1..<Suc n]"
    by (simp add: map_Suc_upt)
  finally show ?thesis .
qed

lemma normalizePhase_tasks:
  "phaseTasks (normalizePhase (i, ph)) =
     map normalizeTask (enumerate 0 (take MAX_TASKS_PER_PHASE (phaseTasks ph)))"
  by (simp add: normalizePhase_def)

lemma normalizePhase_task_serials:
  "map taskSerial (phaseTasks (normalizePhase (i, ph))) =
     map real [1..<Suc (length (phaseTasks (normalizePhase (i, ph))))]"
proof -
  let ?ts = "take MAX_TASKS_PER_PHASE (phaseTasks ph)"
  have "map taskSerial (map normalizeTask (enumerate 0 ?ts)) =
        map (\<lambda>(j, t). real (j + 1)) (enumerate 0 ?ts)"
    by (simp add: normalizeTask_def case_prod_unfold comp_def)
  also have "\<dots> = map (\<lambda>j. real (j + 1)) [0..<length ?ts]"
    by (rule map_index_enumerate)
  also have "\<dots> = map real [1..<Suc (length ?ts)]"
    by (rule serials_upto)
  finally show ?thesis by (simp add: normalizePhase_tasks)
qed

lemma normalizePhase_task_status:
  "t \<in> set (phaseTasks (normalizePhase (i, ph))) \<Longrightarrow> taskStatus t = not_started"
  by (auto simp: normalizePhase_tasks normalizeTask_def)

lemma normalizePlan_phase_serials:
  "map phaseSerial (planPhases (normalizePlan p)) =
     map real [1..<Suc (length (planPhases (normalizePlan p)))]"
proof -
  let ?ps = "take MAX_PHASES (planPhases p)"
  have "map phaseSerial (map normalizePhase (enumerate 0 ?ps)) =
        map (\<lambda>(i, ph). real (i + 1)) (enumerate 0 ?ps)"
    by (simp add: normalizePhase_def case_prod_unfold comp_def)
  also have "\<dots> = map (\<lambda>i. real (i + 1)) [0..<length ?ps]"
    by (rule map_index_enumerate)
  also have "\<dots> = map real [1..<Suc (length ?ps)]"
    by (rule serials_upto)
  finally show ?thesis by (simp add: normalizePlan_def)
qed

text \<open>
  C3. Normalization is a total function on plans, and for every plan its result has at
  most \<open>MAX_PHASES = 5\<close> phases (the first five, or all of them if there are fewer), the
  phase serials are \<open>1, \<dots>, N\<close> in order, every phase has at most
  \<open>MAX_TASKS_PER_PHASE = 5\<close> tasks with serials \<open>1, \<dots>, M\<close> in order, and every task has
  status \<open>not_started\<close>, whatever serials and statuses the input carried.
\<close>

theorem normalizePlan_invariants:
  "MAX_PHASES = 5 \<and> MAX_TASKS_PER_PHASE = 5
   \<and> length (planPhases (normalizePlan p)) = min MAX_PHASES (length (planPhases p))
   \<and> length (planPhases (normalizePlan p)) \<le> MAX_PHASES
   \<and> map phaseSerial (planPhases (normalizePlan p)) =
       map real [1..<Suc (length (planPhases (normalizePlan p)))]
   \<and> (\<forall>ph \<in> set (planPhases (normalizePlan p)).
         length (phaseTasks ph) \<le> MAX_TASKS_PER_PHASE
         \<and> map taskSerial (phaseTasks ph) = map real [1..<Suc (length (phaseTasks ph))]
         \<and> (\<forall>t \<in> set (phaseTasks ph). taskStatus t = not_started))"
proof -
  have len: "length (planPhases (normalizePlan p)) = min MAX_PHASES (length (planPhases p))"
    by (simp add: normalizePlan_def min.commute)
  have each: "length (phaseTasks ph) \<le> MAX_TASKS_PER_PHASE
         \<and> map taskSerial (phaseTasks ph) = map real [1..<Suc (length (phaseTasks ph))]
         \<and> (\<forall>t \<in> set (phaseTasks ph). taskStatus t = not_started)"
    if "ph \<in> set (planPhases (normalizePlan p))" for ph
  proof -
    from that obtain i q where ph: "ph = normalizePhase (i, q)"
      by (auto simp: normalizePlan_def)
    show ?thesis
      unfolding ph
      using normalizePhase_task_serials[of i q] normalizePhase_task_status[of _ i q]
      by (simp add: normalizePhase_tasks)
  qed
  from len each normalizePlan_phase_serials[of p] show ?thesis
    by (simp add: MAX_PHASES_def MAX_TASKS_PER_PHASE_def)
qed

theorem normalizePlan_invariants_witness:
  "length (planPhases overfullPlan) = 7
   \<and> length (planPhases (normalizePlan overfullPlan)) = 5
   \<and> map phaseSerial (planPhases (normalizePlan overfullPlan)) = [1, 2, 3, 4, 5]
   \<and> map (\<lambda>ph. map taskSerial (phaseTasks ph)) (planPhases (normalizePlan overfullPlan)) =
       [[1, 2, 3, 4, 5], [1, 2, 3, 4, 5], [1, 2, 3, 4, 5], [], [1]]
   \<and> map (\<lambda>ph. map taskStatus (phaseTasks ph)) (planPhases (normalizePlan overfullPlan)) =
       [replicate 5 not_started, replicate 5 not_started, replicate 5 not_started, [],
        [not_started]]"
  using normalizePlan_invariants[of overfullPlan]
  by (simp add: overfullPlan_def overfullPhase_def overfullTask_def normalizePlan_def
      normalizePhase_def normalizeTask_def MAX_PHASES_def MAX_TASKS_PER_PHASE_def
      enumerate_eq_zip upt_rec[of _ "numeral _"] upt_rec[of _ "Suc _"] numeral_eq_Suc)

lemma normalizePhase_frame:
  "phaseName (normalizePhase (i, ph)) = phaseName ph"
  "map taskId (phaseTasks (normalizePhase (i, ph))) =
     map taskId (take MAX_TASKS_PER_PHASE (phaseTasks ph))"
  "map taskTitle (phaseTasks (normalizePhase (i, ph))) =
     map taskTitle (take MAX_TASKS_PER_PHASE (phaseTasks ph))"
proof -
  let ?ts = "take MAX_TASKS_PER_PHASE (phaseTasks ph)"
  show "phaseName (normalizePhase (i, ph)) = phaseName ph"
    by (simp add: normalizePhase_def)
  have "map taskId (map normalizeTask (enumerate 0 ?ts)) =
        map (\<lambda>(j, t). taskId t) (enumerate 0 ?ts)"
    by (simp add: normalizeTask_def case_prod_unfold comp_def)
  then show "map taskId (phaseTasks (normalizePhase (i, ph))) = map taskId ?ts"
    by (simp only: normalizePhase_tasks map_elem_enumerate)
  have "map taskTitle (map normalizeTask (enumerate 0 ?ts)) =
        map (\<lambda>(j, t). taskTitle t) (enumerate 0 ?ts)"
    by (simp add: normalizeTask_def case_prod_unfold comp_def)
  then show "map taskTitle (phaseTasks (normalizePhase (i, ph))) = map taskTitle ?ts"
    by (simp only: normalizePhase_tasks map_elem_enumerate)
qed

lemma map_normalizePhase:
  assumes "\<And>i ph. f (normalizePhase (i, ph)) = g ph"
  shows "map f (planPhases (normalizePlan p)) = map g (take MAX_PHASES (planPhases p))"
proof -
  let ?ps = "take MAX_PHASES (planPhases p)"
  have "f (normalizePhase x) = g (snd x)" for x
    using assms[of "fst x" "snd x"] by simp
  then have "map f (map normalizePhase (enumerate 0 ?ps)) =
             map (\<lambda>(i, ph). g ph) (enumerate 0 ?ps)"
    by (simp add: case_prod_unfold comp_def)
  then show ?thesis
    by (simp add: normalizePlan_def map_elem_enumerate)
qed

text \<open>
  C10. Normalization keeps everything but serials and statuses. The goal is unchanged;
  the phases of the result are the first \<open>MAX_PHASES\<close> phases of the input in their order,
  with their names; the tasks of each of them are its first \<open>MAX_TASKS_PER_PHASE\<close> tasks in
  their order, with their ids and titles. The remaining fields are the serial of a phase
  and the serial and status of a task.
\<close>

theorem normalizePlan_frame:
  "planGoal (normalizePlan p) = planGoal p
   \<and> map phaseName (planPhases (normalizePlan p)) =
       map phaseName (take MAX_PHASES (planPhases p))
   \<and> map (\<lambda>ph. map taskId (phaseTasks ph)) (planPhases (normalizePlan p)) =
       map (\<lambda>ph. map taskId (take MAX_TASKS_PER_PHASE (phaseTasks ph)))
           (take MAX_PHASES (planPhases p))
   \<and> map (\<lambda>ph. map taskTitle (phaseTasks ph)) (planPhases (normalizePlan p)) =
       map (\<lambda>ph. map taskTitle (take MAX_TASKS_PER_PHASE (phaseTasks ph)))
           (take MAX_PHASES (planPhases p))"
proof (intro conjI)
  show "planGoal (normalizePlan p) = planGoal p"
    by (simp add: normalizePlan_def)
  show "map phaseName (planPhases (normalizePlan p)) =
        map phaseName (take MAX_PHASES (planPhases p))"
    by (rule map_normalizePhase) (rule normalizePhase_frame)
  show "map (\<lambda>ph. map taskId (phaseTasks ph)) (planPhases (normalizePlan p)) =
        map (\<lambda>ph. map taskId (take MAX_TASKS_PER_PHASE (phaseTasks ph)))
            (take MAX_PHASES (planPhases p))"
    by (rule map_normalizePhase) (rule normalizePhase_frame)
  show "map (\<lambda>ph. map taskTitle (phaseTasks ph)) (planPhases (normalizePlan p)) =
        map (\<lambda>ph. map taskTitle (take MAX_TASKS_PER_PHASE (phaseTasks ph)))
            (take MAX_PHASES (planPhases p))"
    by (rule map_normalizePhase) (rule normalizePhase_frame)
qed

section \<open>Properties of the recovery\<close>

lemma backtick_not_space: "\<not> isWhiteSpace 96"
  by (simp add: isWhiteSpace_def)

lemma fence_chars: "js ''```'' = [96, 96, 96]" "js ''json'' = [106, 115, 111, 110]"
  "js ''```json'' = [96, 96, 96, 106, 115, 111, 110]"
  by (simp_all add: js_def)

lemma fenceToEnd_long:
  assumes "3 < length r" "last r = 96"
  shows "\<not> fenceToEnd r"
proof
  assume "fenceToEnd r"
  then have all: "list_all isWhiteSpace (drop 3 r)" by (simp add: fenceToEnd_def)
  from assms have ne: "drop 3 r \<noteq> []" by simp
  from assms have "last (drop 3 r) = 96" by (simp add: last_drop)
  with ne have "96 \<in> set (drop 3 r)" by (metis last_in_set)
  with all have "isWhiteSpace 96" by (simp add: list_all_iff)
  then show False by (simp add: backtick_not_space)
qed

lemma stripClosingFence_fence: "stripClosingFence (u @ [10, 96, 96, 96]) = u"
proof (induction u)
  case Nil
  show ?case by (simp add: closingFenceAt_def fenceToEnd_def fence_chars)
next
  case (Cons c u)
  have "\<not> closingFenceAt (c # u @ [10, 96, 96, 96])"
  proof (cases "c = 10")
    case True
    have "\<not> fenceToEnd (u @ [10, 96, 96, 96])" by (rule fenceToEnd_long) simp_all
    with True show ?thesis by (simp add: closingFenceAt_def)
  next
    case False
    have "\<not> fenceToEnd (c # u @ [10, 96, 96, 96])" by (rule fenceToEnd_long) simp_all
    with False show ?thesis by (simp add: closingFenceAt_def)
  qed
  with Cons.IH show ?case by simp
qed

lemma trim_fenced: "trim (fenced t) = fenced t"
  by (simp add: trim_def trimStart_def trimEnd_def fenced_def fence_chars backtick_not_space)

lemma stripOpeningFence_fenced:
  "stripOpeningFence (fenced t) = dropWhile isWhiteSpace (t @ [10, 96, 96, 96])"
  by (simp add: stripOpeningFence_def fenced_def fence_chars isWhiteSpace_def)

lemma trim_all_space:
  assumes "list_all isWhiteSpace t"
  shows "trim t = []"
proof -
  from assms have d: "dropWhile isWhiteSpace t = []"
    unfolding list_all_iff dropWhile_eq_Nil_conv .
  show ?thesis unfolding trim_def trimStart_def trimEnd_def d by simp
qed

lemma trim_trimStart: "trim (dropWhile isWhiteSpace t) = trim t"
  by (simp add: trim_def trimStart_def dropWhile_idem)

lemma cleanedResponse_fenced: "cleanedResponse (fenced t) = trim t"
proof (cases "list_all isWhiteSpace t")
  case True
  then have "dropWhile isWhiteSpace (t @ [10, 96, 96, 96]) = [96, 96, 96]"
    by (simp add: dropWhile_append list_all_iff isWhiteSpace_def)
  then have "cleanedResponse (fenced t) = trim (stripClosingFence [96, 96, 96])"
    by (simp add: cleanedResponse_def trim_fenced stripOpeningFence_fenced)
  also have "\<dots> = []"
    by (simp add: closingFenceAt_def fenceToEnd_def fence_chars trim_def trimStart_def trimEnd_def)
  finally show ?thesis using True by (simp add: trim_all_space)
next
  case False
  then obtain x where "x \<in> set t" "\<not> isWhiteSpace x" by (auto simp: list_all_iff)
  then have "dropWhile isWhiteSpace (t @ [10, 96, 96, 96]) =
             dropWhile isWhiteSpace t @ [10, 96, 96, 96]"
    by (simp add: dropWhile_append1)
  then show ?thesis
    by (simp add: cleanedResponse_def trim_fenced stripOpeningFence_fenced
        stripClosingFence_fence trim_trimStart)
qed


text \<open>
  C5. Recovery of the model's text. \<^verbatim>\<open>JSON.parse\<close> is the parameter \<open>parse\<close>; two facts about
  it are used: it throws on a text that starts with a backtick, and a text it accepts it
  also accepts, with the same value, after \<^verbatim>\<open>trim()\<close>. Then for every text \<open>t\<close> that parses
  to \<open>v\<close>, recovery of the fenced text \<^verbatim>\<open>```json\n\<close> \<open>t\<close> \<^verbatim>\<open>\n```\<close> yields \<open>v\<close>. And for every text \<open>a\<close>
  on which the direct parse throws with message \<open>e\<close> and the parse of the text stripped of
  its fence throws as well, the block logs the raw text and throws an \<^verbatim>\<open>Error\<close> with the
  message \<^verbatim>\<open>Failed to parse AI response as JSON: \<close>\<open>e\<close>.
\<close>

theorem parseAiResponse_recovery:
  assumes rejects: "\<And>s. isl (parse (96 # s))"
      and trims: "\<And>s v. parse s = Inr v \<Longrightarrow> parse (trim s) = Inr v"
  shows "(parse t = Inr v \<longrightarrow> snd (parseAiResponse parse (fenced t)) = Inr v)
       \<and> (parse a = Inl e \<and> isl (parse (cleanedResponse a)) \<longrightarrow>
            parseAiResponse parse a =
              ([(LogWarn, [js ''Direct JSON parse failed, attempting markdown strip...'']),
                (LogError, [js ''Failed to parse AI response as JSON after fallback:'', e]),
                (LogError, [js ''Raw AI response:'', a])],
               Inl (PlainError (js ''Failed to parse AI response as JSON: '' @ e))))"
proof (intro conjI impI)
  assume ok: "parse t = Inr v"
  have "fenced t = 96 # (js ''``json'' @ [10] @ t @ [10] @ js ''```'')"
    by (simp add: fenced_def js_def)
  with rejects[of "js ''``json'' @ [10] @ t @ [10] @ js ''```''"]
  obtain e' where direct: "parse (fenced t) = Inl e'"
    by (cases "parse (fenced t)") auto
  from trims[OF ok] have "parse (cleanedResponse (fenced t)) = Inr v"
    by (simp add: cleanedResponse_fenced)
  with direct show "snd (parseAiResponse parse (fenced t)) = Inr v"
    by (simp add: parseAiResponse_def)
next
  assume "parse a = Inl e \<and> isl (parse (cleanedResponse a))"
  then show "parseAiResponse parse a =
              ([(LogWarn, [js ''Direct JSON parse failed, attempting markdown strip...'']),
                (LogError, [js ''Failed to parse AI response as JSON after fallback:'', e]),
                (LogError, [js ''Raw AI response:'', a])],
               Inl (PlainError (js ''Failed to parse AI response as JSON: '' @ e)))"
    by (cases "parse (cleanedResponse a)") (auto simp: parseAiResponse_def)
qed

lemma jsonWhiteSpace_isWhiteSpace: "isJsonWhiteSpace c \<Longrightarrow> isWhiteSpace c"
  by (auto simp: isJsonWhiteSpace_def isWhiteSpace_def)

lemma jsonTrim_backtick: "jsonTrim (96 # s) = 96 # rev (dropWhile isJsonWhiteSpace (rev s))"
  by (simp add: jsonTrim_def isJsonWhiteSpace_def dropWhile_append3)

lemma literalParse_backtick: "isl (literalParse (96 # s))"
  by (simp add: literalParse_def jsonTrim_backtick js_def)

lemma jsonTrim_split:
  "\<exists>a b. s = a @ jsonTrim s @ b \<and> list_all isJsonWhiteSpace a \<and> list_all isJsonWhiteSpace b"
proof -
  let ?d = "dropWhile isJsonWhiteSpace s"
  have s: "s = takeWhile isJsonWhiteSpace s @ ?d" by simp
  have "rev (dropWhile isJsonWhiteSpace (rev ?d)) @ rev (takeWhile isJsonWhiteSpace (rev ?d))
        = rev (takeWhile isJsonWhiteSpace (rev ?d) @ dropWhile isJsonWhiteSpace (rev ?d))"
    by (simp only: rev_append)
  also have "\<dots> = rev (rev ?d)"
    by (simp only: takeWhile_dropWhile_id)
  also have "\<dots> = ?d" by simp
  finally have d: "?d = jsonTrim s @ rev (takeWhile isJsonWhiteSpace (rev ?d))"
    by (simp add: jsonTrim_def)
  have a: "list_all isJsonWhiteSpace (takeWhile isJsonWhiteSpace s)"
    by (auto simp: list_all_iff dest: set_takeWhileD)
  have b: "list_all isJsonWhiteSpace (rev (takeWhile isJsonWhiteSpace (rev ?d)))"
    by (auto simp: list_all_iff dest: set_takeWhileD)
  from s d have "s = takeWhile isJsonWhiteSpace s @ jsonTrim s
                     @ rev (takeWhile isJsonWhiteSpace (rev ?d))"
    by metis
  with a b show ?thesis by blast
qed

lemma trim_between:
  assumes a: "list_all isWhiteSpace a" and b: "list_all isWhiteSpace b"
    and first: "\<not> isWhiteSpace x" and final: "\<not> isWhiteSpace (last (x # m))"
  shows "trim (a @ (x # m) @ b) = x # m"
proof -
  from a first have "trimStart (a @ (x # m) @ b) = (x # m) @ b"
    by (simp add: trimStart_def dropWhile_append list_all_iff)
  moreover have "rev ((x # m) @ b) = rev b @ last (x # m) # rev (butlast (x # m))"
    by (metis append_butlast_last_id list.distinct(1) rev.simps(2) rev_append rev_rev_ident
        append.assoc append_Cons append_Nil)
  moreover from b final have "dropWhile isWhiteSpace (rev b @ last (x # m) # rev (butlast (x # m)))
      = last (x # m) # rev (butlast (x # m))"
    by (simp add: dropWhile_append list_all_iff)
  moreover have "rev (last (x # m) # rev (butlast (x # m))) = x # m"
    by (metis append_butlast_last_id list.distinct(1) rev.simps(2) rev_rev_ident)
  ultimately show ?thesis
    by (simp add: trim_def trimEnd_def)
qed

lemma trim_of_jsonTrim:
  assumes "jsonTrim s = x # m" "\<not> isWhiteSpace x" "\<not> isWhiteSpace (last (x # m))"
  shows "trim s = x # m"
proof -
  from jsonTrim_split[of s] assms(1) obtain a b where
    s: "s = a @ (x # m) @ b" and "list_all isJsonWhiteSpace a" "list_all isJsonWhiteSpace b"
    by auto
  then have "list_all isWhiteSpace a" "list_all isWhiteSpace b"
    by (auto simp: list_all_iff jsonWhiteSpace_isWhiteSpace)
  from trim_between[OF this assms(2,3)] s show ?thesis by simp
qed

lemma literalParse_trim:
  assumes "literalParse s = Inr v"
  shows "literalParse (trim s) = Inr v"
proof -
  from assms have "jsonTrim s = js ''null'' \<or> jsonTrim s = js ''true'' \<or>
      jsonTrim s = js ''false'' \<or> jsonTrim s = js ''{}''"
    by (auto simp: literalParse_def Let_def split: if_splits)
  then have "trim s = jsonTrim s \<and> jsonTrim (jsonTrim s) = jsonTrim s"
  proof (elim disjE)
    assume j: "jsonTrim s = js ''null''"
    then have "jsonTrim s = [110, 117, 108, 108]" by (simp add: js_def)
    from trim_of_jsonTrim[OF this] have "trim s = [110, 117, 108, 108]"
      by (simp add: isWhiteSpace_def)
    with j show ?thesis by (simp add: js_def jsonTrim_def isJsonWhiteSpace_def)
  next
    assume j: "jsonTrim s = js ''true''"
    then have "jsonTrim s = [116, 114, 117, 101]" by (simp add: js_def)
    from trim_of_jsonTrim[OF this] have "trim s = [116, 114, 117, 101]"
      by (simp add: isWhiteSpace_def)
    with j show ?thesis by (simp add: js_def jsonTrim_def isJsonWhiteSpace_def)
  next
    assume j: "jsonTrim s = js ''false''"
    then have "jsonTrim s = [102, 97, 108, 115, 101]" by (simp add: js_def)
    from trim_of_jsonTrim[OF this] have "trim s = [102, 97, 108, 115, 101]"
      by (simp add: isWhiteSpace_def)
    with j show ?thesis by (simp add: js_def jsonTrim_def isJsonWhiteSpace_def)
  next
    assume j: "jsonTrim s = js ''{}''"
    then have "jsonTrim s = [123, 125]" by (simp add: js_def)
    from trim_of_jsonTrim[OF this] have "trim s = [123, 125]"
      by (simp add: isWhiteSpace_def)
    with j show ?thesis by (simp add: js_def jsonTrim_def isJsonWhiteSpace_def)
  qed
  with assms show ?thesis by (simp add: literalParse_def)
qed

theorem parseAiResponse_recovery_witness:
  "literalParse (js '' {}'' @ [10]) = Inr (JObj [])
   \<and> snd (parseAiResponse literalParse (fenced (js '' {}'' @ [10]))) = Inr (JObj [])
   \<and> literalParse (js ''{'') = Inl (js ''Unexpected token'')
   \<and> isl (literalParse (cleanedResponse (js ''{'')))
   \<and> parseAiResponse literalParse (js ''{'') =
       ([(LogWarn, [js ''Direct JSON parse failed, attempting markdown strip...'']),
         (LogError, [js ''Failed to parse AI response as JSON after fallback:'',
                     js ''Unexpected token'']),
         (LogError, [js ''Raw AI response:'', js ''{''])],
        Inl (PlainError (js ''Failed to parse AI response as JSON: '' @ js ''Unexpected token'')))"
proof -
  have p1: "literalParse (js '' {}'' @ [10]) = Inr (JObj [])"
    by (simp add: literalParse_def jsonTrim_def isJsonWhiteSpace_def js_def)
  have p2: "literalParse (js ''{'') = Inl (js ''Unexpected token'')"
    by (simp add: literalParse_def jsonTrim_def isJsonWhiteSpace_def js_def)
  have p3: "isl (literalParse (cleanedResponse (js ''{'')))"
    by (simp add: literalParse_def jsonTrim_def isJsonWhiteSpace_def cleanedResponse_def
        stripOpeningFence_def closingFenceAt_def fenceToEnd_def js_eval)
  from parseAiResponse_recovery[of literalParse "js '' {}'' @ [10]" "JObj []" "js ''{''"
        "js ''Unexpected token''", OF literalParse_backtick literalParse_trim] p1 p2 p3
  show ?thesis by simp
qed

section \<open>Properties of the handlers\<close>

lemma clientOf_requestFrom:
  "getClientIdentifier (requestFrom ''203.0.113.9'' m p) = js ''203.0.113.9''"
  by (simp add: getClientIdentifier_def requestFrom_def truthy_def js_eval)

lemmas handler_eval = generateAction_def explainAction_def generateRateLimit_def
  explainRateLimit_def route_def rateLimitOf_def clientOf_requestFrom limiter_eval
  tooManyRequests_def methodNotAllowed_def statusOf_def

lemma stub_fields:
  "clockNow (stubWorld t env reply) = t" "clockSweep (stubWorld t env reply) = t"
  "processEnv (stubWorld t env reply) = env"
  "zodMessage (stubWorld t env reply) = (\<lambda>issues. js ''invalid'')"
  "jsonParse (stubWorld t env reply) = literalParse"
  "createResponse (stubWorld t env reply) = (\<lambda>cfg prompt. Inr reply)"
  "newOpenAI (stubWorld t env reply) =
     (\<lambda>cfg. if OPENAI_API_KEY cfg = [] then Some (PlainError (js ''Missing credentials''))
            else None)"
  by (simp_all add: stubWorld_def)

lemma method_requestFrom: "httpMethod (requestFrom c m p) = js m" "bodyJson (requestFrom c m p) = p"
  by (simp_all add: requestFrom_def)

lemma get_is_not_post: "js ''GET'' \<noteq> js ''POST''"
  by (simp add: js_def)

lemma test_key_not_empty: "js ''sk-test'' \<noteq> []"
  by (simp add: js_def)

lemma goodEnv_config:
  "getConfig render goodEnv =
     Inr \<lparr>OPENAI_API_KEY = js ''sk-test'', OPENAI_MODEL = js ''gpt-4o-mini''\<rparr>"
  by (simp add: getConfig_def goodEnv_def schema_eval js_def)

lemma explain_formPayload:
  "explainTry (stubWorld t goodEnv reply) cfg (requestFrom c m (Inr formPayload)) =
     Inl (ZodError [\<lparr>path = [Key (js ''query'')], code = invalid_type\<rparr>,
                    \<lparr>path = [Key (js ''plan'')], code = invalid_type\<rparr>])"
  by (simp add: explainTry_def andThen_def method_requestFrom formPayload_def schema_eval js_def)

lemma generate_formPayload:
  "generateTry (stubWorld t goodEnv (js ''{}'')) cfg (requestFrom c m (Inr formPayload)) =
     Inl (ZodError [\<lparr>path = [Key (js ''goal'')], code = invalid_type\<rparr>,
                    \<lparr>path = [Key (js ''phases'')], code = invalid_type\<rparr>])"
proof -
  have v: "generatePlanPayloadSchema [] (Some formPayload) =
      Inr \<lparr>projectGoal = js ''Build a Flutter expense app'', experienceLevel = js ''beginner'',
           timeAvailability = js ''3-5'', deadline = None, regenerate = None\<rparr>"
    by (simp add: formPayload_def schema_eval js_eval)
  have p: "parseAiResponse literalParse (js ''{}'') = ([], Inr (JObj []))"
    by (simp add: parseAiResponse_def literalParse_def jsonTrim_def isJsonWhiteSpace_def js_def)
  have s: "projectPlanSchema [] (Some (JObj [])) =
      Inl [\<lparr>path = [Key (js ''goal'')], code = invalid_type\<rparr>,
           \<lparr>path = [Key (js ''phases'')], code = invalid_type\<rparr>]"
    by (simp add: schema_eval)
  have n: "js ''{}'' \<noteq> []" by (simp add: js_def)
  show ?thesis
    by (simp add: generateTry_def andThen_def method_requestFrom v deadlineText_def truthy_def
        stub_fields p s n)
qed

lemma generateCatch_structured:
  "status (generateCatch error) \<in> {400, 429, 500}
   \<and> (\<exists>message errors. body (generateCatch error) = Failure message errors)"
  by (cases error) (auto simp: generateCatch_def)

lemma tooManyRequests_structured:
  "status (tooManyRequests limit r) = 429
   \<and> (\<exists>message. body (tooManyRequests limit r) = Failure message None)"
  by (simp add: tooManyRequests_def)

subsection \<open>Validation errors and the two failure classes\<close>

lemma issuesOf_simps:
  "issuesOf (Inl e) = set e" "issuesOf (Inr a) = {}"
  by (simp_all add: issuesOf_def)

lemma issuesOf_both: "issuesOf (both x y) = issuesOf x \<union> issuesOf y"
  by (cases x; cases y) (simp_all add: both_def issuesOf_def)

lemma issuesOf_map_sum: "issuesOf (map_sum id f x) = issuesOf x"
  by (cases x) (simp_all add: issuesOf_def)

lemma issuesOf_collect: "issuesOf (collect xs) = (\<Union>x \<in> set xs. issuesOf x)"
  by (induction xs) (simp_all add: issuesOf_simps issuesOf_map_sum issuesOf_both)

lemma below_self: "\<lparr>path = p, code = c\<rparr> \<in> below p"
  by (simp add: below_def)

lemma below_append: "below (p @ q) \<subseteq> below p"
proof
  fix i assume "i \<in> below (p @ q)"
  then have "take (length p + length q) (path i) = p @ q" by (simp add: below_def)
  then have "take (length p) (take (length p + length q) (path i)) = take (length p) (p @ q)"
    by simp
  then show "i \<in> below p" by (simp add: below_def min_def)
qed

lemma zString_below: "issuesOf (zString p v) \<subseteq> below p"
  by (auto simp: zString_def issuesOf_def below_def split: option.splits json.splits)

lemma zNumber_below: "issuesOf (zNumber p v) \<subseteq> below p"
  by (auto simp: zNumber_def issuesOf_def below_def split: option.splits json.splits)

lemma zBoolean_below: "issuesOf (zBoolean p v) \<subseteq> below p"
  by (auto simp: zBoolean_def issuesOf_def below_def split: option.splits json.splits)

lemma zEnum_below: "issuesOf (zEnum options p v) \<subseteq> below p"
  by (auto simp: zEnum_def issuesOf_def below_def split: option.splits json.splits)

lemma zTrimmedNonEmpty_below: "issuesOf (zTrimmedNonEmpty p v) \<subseteq> below p"
  by (auto simp: zTrimmedNonEmpty_def issuesOf_def below_def split: option.splits json.splits)

lemma zOptional_below:
  assumes "\<And>q x. issuesOf (inner q x) \<subseteq> below q"
  shows "issuesOf (zOptional inner p v) \<subseteq> below p"
  using assms[of p v] by (cases v) (simp_all add: zOptional_def issuesOf_simps issuesOf_map_sum)

lemma zArray_below:
  assumes "\<And>q x. issuesOf (element q x) \<subseteq> below q"
  shows "issuesOf (zArray element p v) \<subseteq> below p"
proof (cases "\<exists>xs. v = Some (JArr xs)")
  case True
  then obtain xs where v: "v = Some (JArr xs)" by blast
  have "issuesOf (element (p @ [Index i]) (Some x)) \<subseteq> below p" for i x
    using assms[of "p @ [Index i]" "Some x"] below_append[of p "[Index i]"] by blast
  then show ?thesis
    by (auto simp: v zArray_def issuesOf_collect)
next
  case False
  then show ?thesis
    by (auto simp: zArray_def issuesOf_def below_def split: option.splits json.splits)
qed

lemma zObject_below:
  assumes "\<And>loc get. (\<And>k. loc k = p @ [Key k]) \<Longrightarrow> issuesOf (members loc get) \<subseteq> below p"
  shows "issuesOf (zObject members p v) \<subseteq> below p"
proof (cases "\<exists>kvs. v = Some (JObj kvs)")
  case True
  then obtain kvs where v: "v = Some (JObj kvs)" by blast
  show ?thesis using assms[of "\<lambda>k. p @ [Key k]" "map_of kvs"] by (simp add: v zObject_def)
next
  case False
  then show ?thesis
    by (auto simp: zObject_def issuesOf_def below_def split: option.splits json.splits)
qed

lemma under: "issuesOf x \<subseteq> below (p @ q) \<Longrightarrow> issuesOf x \<subseteq> below p"
  using below_append[of p q] by blast

lemma taskSchema_below: "issuesOf (taskSchema p v) \<subseteq> below p"
  unfolding taskSchema_def
  by (rule zObject_below)
     (auto simp: issuesOf_map_sum issuesOf_both taskStatusSchema_def
           dest!: subsetD[OF zNumber_below] subsetD[OF zString_below] subsetD[OF zEnum_below]
                  subsetD[OF below_append])

lemma phaseSchema_below: "issuesOf (phaseSchema p v) \<subseteq> below p"
  unfolding phaseSchema_def
  by (rule zObject_below)
     (auto simp: issuesOf_map_sum issuesOf_both
           dest!: subsetD[OF zNumber_below] subsetD[OF zString_below]
                  subsetD[OF zArray_below[of taskSchema, OF taskSchema_below]]
                  subsetD[OF below_append])

lemma projectPlanSchema_paths:
  "issuesOf (projectPlanSchema [] v)
     \<subseteq> {i. path i = []} \<union> below [Key (js ''goal'')] \<union> below [Key (js ''phases'')]"
proof (cases "\<exists>kvs. v = Some (JObj kvs)")
  case True
  then obtain kvs where v: "v = Some (JObj kvs)" by blast
  show ?thesis
    using zString_below[of "[Key (js ''goal'')]" "map_of kvs (js ''goal'')"]
      zArray_below[of phaseSchema "[Key (js ''phases'')]" "map_of kvs (js ''phases'')",
        OF phaseSchema_below]
    by (auto simp: v projectPlanSchema_def zObject_def issuesOf_map_sum issuesOf_both)
next
  case False
  then show ?thesis
    by (auto simp: projectPlanSchema_def zObject_def issuesOf_def
             split: option.splits json.splits)
qed

lemma below_Cons: "i \<in> below [seg] \<Longrightarrow> \<exists>rest. path i = seg # rest"
  by (cases "path i") (auto simp: below_def)

lemma plan_keys_are_not_form_fields:
  "js ''goal'' \<noteq> js ''projectGoal''" "js ''goal'' \<noteq> js ''experienceLevel''"
  "js ''goal'' \<noteq> js ''timeAvailability''" "js ''goal'' \<noteq> js ''deadline''"
  "js ''phases'' \<noteq> js ''projectGoal''" "js ''phases'' \<noteq> js ''experienceLevel''"
  "js ''phases'' \<noteq> js ''timeAvailability''" "js ''phases'' \<noteq> js ''deadline''"
  by (simp_all add: js_def)

lemma plan_issues_not_input:
  assumes "projectPlanSchema [] v = Inl issues"
  shows "\<not> isInputValidation issues"
proof
  assume "isInputValidation issues"
  then obtain i where i: "i \<in> set issues"
    and hit: "case path i of [] \<Rightarrow> False
              | seg # _ \<Rightarrow> seg = Key (js ''projectGoal'') \<or> seg = Key (js ''experienceLevel'')
                           \<or> seg = Key (js ''timeAvailability'') \<or> seg = Key (js ''deadline'')"
    by (auto simp: isInputValidation_def list_ex_iff)
  from i assms projectPlanSchema_paths[of v]
  have "path i = [] \<or> i \<in> below [Key (js ''goal'')] \<or> i \<in> below [Key (js ''phases'')]"
    by (auto simp: issuesOf_def)
  then show False
  proof (elim disjE)
    assume "path i = []"
    with hit show False by simp
  next
    assume "i \<in> below [Key (js ''goal'')]"
    then obtain rest where "path i = Key (js ''goal'') # rest" by (auto dest: below_Cons)
    with hit show False by (simp add: plan_keys_are_not_form_fields)
  next
    assume "i \<in> below [Key (js ''phases'')]"
    then obtain rest where "path i = Key (js ''phases'') # rest" by (auto dest: below_Cons)
    with hit show False by (simp add: plan_keys_are_not_form_fields)
  qed
qed

text \<open>
  When the model's text has been parsed and the value fails the plan schema, the
  handler answers with status 500 and the message for an invalid response of the model:
  no issue of the plan schema lies at a field of the form.
\<close>

lemma generateAction_invalid_plan:
  assumes "allowed (fst (generateRateLimit w request st))"
    and "httpMethod request = js ''POST''"
    and "getConfig (zodMessage w) (processEnv w) = Inr cfg \<and> newOpenAI w cfg = None"
    and "bodyJson request = Inr payload"
    and "generatePlanPayloadSchema [] (Some payload) = Inr validatedData"
    and "deadlineText w (deadline validatedData) = Inr deadlineLine"
    and "createResponse w cfg
           \<lparr>rawUserGoal = sanitizeDefault (projectGoal validatedData),
            promptExperienceLevel = experienceLevel validatedData,
            promptTimeAvailability = timeAvailability validatedData,
            promptDeadline = deadlineLine\<rparr> = Inr aiResponse"
    and "aiResponse \<noteq> []"
    and "snd (parseAiResponse (jsonParse w) aiResponse) = Inr parsedResponse"
    and "projectPlanSchema [] (Some parsedResponse) = Inl issues"
  shows "fst (generateAction w request st) =
           Returns \<lparr>status = 500,
                    body = Failure (js ''AI generated an invalid response. Please try again.'')
                             (Some issues),
                    headers = []\<rparr>"
proof -
  from assms(4-10) have "generateTry w cfg request = Inl (ZodError issues)"
    by (simp add: generateTry_def andThen_def)
  with assms(1-3) plan_issues_not_input[OF assms(10)] show ?thesis
    by (simp add: generateAction_def case_prod_unfold generateCatch_def)
qed

lemma exact_zTrimmedNonEmpty: "issuesOf (zTrimmedNonEmpty p v) \<subseteq> {i. path i = p}"
  by (auto simp: zTrimmedNonEmpty_def issuesOf_def split: option.splits json.splits)

lemma exact_zEnum: "issuesOf (zEnum options p v) \<subseteq> {i. path i = p}"
  by (auto simp: zEnum_def issuesOf_def split: option.splits json.splits)

lemma exact_zOptional_zString: "issuesOf (zOptional zString p v) \<subseteq> {i. path i = p}"
  by (auto simp: zOptional_def zString_def issuesOf_def split: option.splits json.splits)

lemma no_issue_no_failure:
  "issuesOf (zTrimmedNonEmpty p v) = {} \<Longrightarrow> \<not> isl (zTrimmedNonEmpty p v)"
  "issuesOf (zEnum options p v) = {} \<Longrightarrow> \<not> isl (zEnum options p v)"
  "issuesOf (zOptional zString p v) = {} \<Longrightarrow> \<not> isl (zOptional zString p v)"
  by (auto simp: zTrimmedNonEmpty_def zEnum_def zOptional_def zString_def issuesOf_def
           split: option.splits json.splits if_splits)

text \<open>
  When the body is an object whose \<^verbatim>\<open>regenerate\<close> is absent or a boolean and the
  request schema rejects it, some issue lies at one of the four fields the handler
  lists, and the handler takes the error for an input error (status 400).
\<close>

lemma form_field_issues_are_input:
  assumes bad: "generatePlanPayloadSchema [] (Some (JObj kvs)) = Inl issues"
    and reg: "zOptional zBoolean [Key (js ''regenerate'')] (map_of kvs (js ''regenerate'')) = Inr r"
  shows "isInputValidation issues"
proof -
  let ?g = "zTrimmedNonEmpty [Key (js ''projectGoal'')] (map_of kvs (js ''projectGoal''))"
  let ?l = "zEnum (sameNames [''beginner'', ''intermediate'', ''advanced''])
              [Key (js ''experienceLevel'')] (map_of kvs (js ''experienceLevel''))"
  let ?t = "zEnum (sameNames [''3-5'', ''5-10'', ''10+''])
              [Key (js ''timeAvailability'')] (map_of kvs (js ''timeAvailability''))"
  let ?d = "zOptional zString [Key (js ''deadline'')] (map_of kvs (js ''deadline''))"
  have "issuesOf (generatePlanPayloadSchema [] (Some (JObj kvs))) =
          issuesOf ?g \<union> issuesOf ?l \<union> issuesOf ?t \<union> issuesOf ?d"
    by (simp add: generatePlanPayloadSchema_def zObject_def issuesOf_map_sum issuesOf_both reg
        issuesOf_simps Un_assoc)
  with bad have all: "set issues = issuesOf ?g \<union> issuesOf ?l \<union> issuesOf ?t \<union> issuesOf ?d"
    by (simp add: issuesOf_simps)
  have ne: "issues \<noteq> []"
  proof
    assume "issues = []"
    with all have "issuesOf ?g = {}" "issuesOf ?l = {}" "issuesOf ?t = {}" "issuesOf ?d = {}"
      by auto
    then have "\<not> isl ?g" "\<not> isl ?l" "\<not> isl ?t" "\<not> isl ?d"
      by (simp_all add: no_issue_no_failure)
    with reg bad show False
      by (auto simp: generatePlanPayloadSchema_def zObject_def both_def split: sum.splits)
  qed
  then obtain i where i: "i \<in> set issues" by (cases issues) auto
  with all exact_zTrimmedNonEmpty[of "[Key (js ''projectGoal'')]"]
    exact_zEnum[of _ "[Key (js ''experienceLevel'')]"]
    exact_zEnum[of _ "[Key (js ''timeAvailability'')]"]
    exact_zOptional_zString[of "[Key (js ''deadline'')]"]
  have "path i = [Key (js ''projectGoal'')] \<or> path i = [Key (js ''experienceLevel'')]
      \<or> path i = [Key (js ''timeAvailability'')] \<or> path i = [Key (js ''deadline'')]"
    by blast
  with i show ?thesis
    by (auto simp: isInputValidation_def list_ex_iff intro!: bexI[of _ i])
qed

lemma generateAction_rejected_payload:
  assumes "allowed (fst (generateRateLimit w request st))"
    and "httpMethod request = js ''POST''"
    and "getConfig (zodMessage w) (processEnv w) = Inr cfg \<and> newOpenAI w cfg = None"
    and "bodyJson request = Inr payload"
    and "generatePlanPayloadSchema [] (Some payload) = Inl issues"
  shows "fst (generateAction w request st) = Returns (generateCatch (ZodError issues))"
    and "status (generateCatch (ZodError issues)) = (if isInputValidation issues then 400 else 500)"
proof -
  from assms(4,5) have "generateTry w cfg request = Inl (ZodError issues)"
    by (simp add: generateTry_def andThen_def)
  with assms(1-3) show "fst (generateAction w request st) = Returns (generateCatch (ZodError issues))"
    by (simp add: generateAction_def case_prod_unfold)
  show "status (generateCatch (ZodError issues)) = (if isInputValidation issues then 400 else 500)"
    by (simp add: generateCatch_def)
qed


text \<open>
  The path to the 200 response: the plan the handler returns is the normalized one.
\<close>

lemma generateAction_success:
  assumes "allowed (fst (generateRateLimit w request st))"
    and "httpMethod request = js ''POST''"
    and "getConfig (zodMessage w) (processEnv w) = Inr cfg \<and> newOpenAI w cfg = None"
    and "bodyJson request = Inr payload"
    and "generatePlanPayloadSchema [] (Some payload) = Inr validatedData"
    and "deadlineText w (deadline validatedData) = Inr deadlineLine"
    and "createResponse w cfg
           \<lparr>rawUserGoal = sanitizeDefault (projectGoal validatedData),
            promptExperienceLevel = experienceLevel validatedData,
            promptTimeAvailability = timeAvailability validatedData,
            promptDeadline = deadlineLine\<rparr> = Inr aiResponse"
    and "aiResponse \<noteq> []"
    and "snd (parseAiResponse (jsonParse w) aiResponse) = Inr parsedResponse"
    and "projectPlanSchema [] (Some parsedResponse) = Inr plan"
  shows "fst (generateAction w request st) =
           Returns \<lparr>status = 200, body = PlanJson (normalizePlan plan), headers = []\<rparr>"
proof -
  from assms(4-10) have "generateTry w cfg request = Inr (normalizePlan plan)"
    by (simp add: generateTry_def andThen_def)
  with assms(1-3) show ?thesis
    by (simp add: generateAction_def case_prod_unfold)
qed

text \<open>
  C1 (the code shares the buckets). Both handlers call \<^verbatim>\<open>checkRateLimit\<close> with the client
  identifier alone as the key of the one \<^verbatim>\<open>rateLimitMap\<close>. For the client 203.0.113.9 and
  an empty limiter: a first request to the explanation endpoint at time 2000 is allowed
  with remaining 9 and \<open>resetAt = 302000\<close>; after one request of the same client to the
  generation endpoint at time 1000 the same explanation request gets remaining 8 and the
  generation window's \<open>resetAt = 121000\<close>. A lone generation request is not throttled
  (it fails later, with 500), but after five explanation requests (each answered with
  400) the first generation request is answered with 429.
\<close>

theorem limiters_share_buckets:
  "view (fst (rateLimitOf Explain (stubWorld 2000 goodEnv (js ''{}''))
           (requestFrom ''203.0.113.9'' ''POST'' (Inr formPayload)) emptyLimiter))
     = (True, 9, 302000)
   \<and> view (fst (rateLimitOf Explain (stubWorld 2000 goodEnv (js ''{}''))
           (requestFrom ''203.0.113.9'' ''POST'' (Inr formPayload))
           (snd (route Generate (stubWorld 1000 goodEnv (js ''{}''))
                   (requestFrom ''203.0.113.9'' ''POST'' (Inr formPayload)) emptyLimiter))))
     = (True, 8, 121000)
   \<and> statusOf (fst (route Generate (stubWorld 1000 goodEnv (js ''{}''))
           (requestFrom ''203.0.113.9'' ''POST'' (Inr formPayload)) emptyLimiter)) = Some 500
   \<and> map statusOf (fst (serve emptyLimiter
         (replicate 5 (Explain, stubWorld 1000 goodEnv (js ''{}''),
                       requestFrom ''203.0.113.9'' ''POST'' (Inr formPayload))
          @ [(Generate, stubWorld 1000 goodEnv (js ''{}''),
              requestFrom ''203.0.113.9'' ''POST'' (Inr formPayload))])))
     = [Some 400, Some 400, Some 400, Some 400, Some 400, Some 429]"
  by (simp add: handler_eval stub_fields method_requestFrom numeral_eq_Suc view_def
      goodEnv_config explain_formPayload generate_formPayload explainCatch_def generateCatch_def
      isInputValidation_def)
     (simp add: js_def)

text \<open>
  C6 (the code reports an input error as a failure of the model). The payload of the
  form with \<^verbatim>\<open>regenerate: "yes"\<close> fails the request schema with one issue at the path
  \<^verbatim>\<open>regenerate\<close>; the handler answers with status 500 and the message
  \<^verbatim>\<open>AI generated an invalid response. Please try again.\<close>, without having called the
  model, because its \<^verbatim>\<open>catch\<close> block takes a validation error for an input error only
  when an issue lies at one of the four other fields.
\<close>

theorem regenerate_reported_as_ai_failure:
  "generatePlanPayloadSchema [] (Some regeneratePayload) =
       Inl [\<lparr>path = [Key (js ''regenerate'')], code = invalid_type\<rparr>]
   \<and> fst (generateAction (stubWorld 1000 goodEnv (js ''{}''))
            (requestFrom ''203.0.113.9'' ''POST'' (Inr regeneratePayload)) emptyLimiter) =
       Returns \<lparr>status = 500,
                body = Failure (js ''AI generated an invalid response. Please try again.'')
                         (Some [\<lparr>path = [Key (js ''regenerate'')], code = invalid_type\<rparr>]),
                headers = []\<rparr>"
proof -
  have v: "generatePlanPayloadSchema [] (Some regeneratePayload) =
       Inl [\<lparr>path = [Key (js ''regenerate'')], code = invalid_type\<rparr>]"
    by (simp add: regeneratePayload_def schema_eval js_eval)
  have c: "getConfig (\<lambda>issues. js ''invalid'') goodEnv =
       Inr \<lparr>OPENAI_API_KEY = js ''sk-test'', OPENAI_MODEL = js ''gpt-4o-mini''\<rparr>"
    by (simp add: getConfig_def goodEnv_def schema_eval js_def)
  have t: "generateTry (stubWorld 1000 goodEnv (js ''{}'')) cfg
             (requestFrom ''203.0.113.9'' ''POST'' (Inr regeneratePayload)) =
           Inl (ZodError [\<lparr>path = [Key (js ''regenerate'')], code = invalid_type\<rparr>])" for cfg
    by (simp add: generateTry_def andThen_def method_requestFrom v)
  have i: "\<not> isInputValidation [\<lparr>path = [Key (js ''regenerate'')], code = invalid_type\<rparr>]"
    by (simp add: isInputValidation_def js_def)
  show ?thesis
    by (simp add: v handler_eval stub_fields method_requestFrom c t generateCatch_def i
        test_key_not_empty)
qed

text \<open>
  C7, as the code has it. Both handlers check the rate limit before the method. A
  request with a method other than POST that the rate-limit check allows is answered
  with \<^verbatim>\<open>{success: false, message: "Method not allowed"}\<close> and status 405; one that the
  check refuses is answered with the throttling response of status 429.
\<close>

theorem non_post_rejected:
  assumes "httpMethod request \<noteq> js ''POST''"
  shows "(allowed (fst (rateLimitOf e w request st)) \<longrightarrow>
            fst (route e w request st) = Returns methodNotAllowed)
       \<and> (\<not> allowed (fst (rateLimitOf e w request st)) \<longrightarrow>
            fst (route e w request st) =
              Returns (tooManyRequests
                         (case e of Generate \<Rightarrow> GENERATE_PLAN_MAX | Explain \<Rightarrow> EXPLAIN_PLAN_MAX)
                         (fst (rateLimitOf e w request st))))
       \<and> status methodNotAllowed = 405
       \<and> status (tooManyRequests limit r) = 429"
  using assms
  by (cases e)
     (simp_all add: route_def rateLimitOf_def generateAction_def explainAction_def
        case_prod_unfold methodNotAllowed_def tooManyRequests_def)

theorem non_post_rejected_witness:
  "httpMethod (requestFrom ''203.0.113.9'' ''GET'' (Inl [])) \<noteq> js ''POST''
   \<and> allowed (fst (rateLimitOf Generate (stubWorld 1000 goodEnv [])
                  (requestFrom ''203.0.113.9'' ''GET'' (Inl [])) emptyLimiter))
   \<and> statusOf (fst (route Generate (stubWorld 1000 goodEnv [])
                  (requestFrom ''203.0.113.9'' ''GET'' (Inl [])) emptyLimiter)) = Some 405
   \<and> \<not> allowed (fst (rateLimitOf Explain (stubWorld 2000 goodEnv [])
                  (requestFrom ''203.0.113.9'' ''GET'' (Inl []))
                  (snd (serve emptyLimiter (replicate 10
                     (Explain, stubWorld 1000 goodEnv [],
                      requestFrom ''203.0.113.9'' ''GET'' (Inl [])))))))
   \<and> statusOf (fst (route Explain (stubWorld 2000 goodEnv [])
                  (requestFrom ''203.0.113.9'' ''GET'' (Inl []))
                  (snd (serve emptyLimiter (replicate 10
                     (Explain, stubWorld 1000 goodEnv [],
                      requestFrom ''203.0.113.9'' ''GET'' (Inl []))))))) = Some 429"
  using non_post_rejected[of "requestFrom ''203.0.113.9'' ''GET'' (Inl [])" Generate
          "stubWorld 1000 goodEnv []" emptyLimiter]
        non_post_rejected[of "requestFrom ''203.0.113.9'' ''GET'' (Inl [])" Explain
          "stubWorld 2000 goodEnv []"
          "snd (serve emptyLimiter (replicate 10
                     (Explain, stubWorld 1000 goodEnv [],
                      requestFrom ''203.0.113.9'' ''GET'' (Inl []))))"]
  by (simp add: handler_eval stub_fields method_requestFrom get_is_not_post numeral_eq_Suc)

text \<open>
  C7 as stated fails: six GET requests of one client to the generation endpoint within
  one window; the sixth is answered with 429, not with 405.
\<close>

theorem non_post_over_limit:
  "httpMethod (requestFrom ''203.0.113.9'' ''GET'' (Inl [])) \<noteq> js ''POST''
   \<and> map statusOf (fst (serve emptyLimiter (replicate 6
         (Generate, stubWorld 1000 goodEnv [], requestFrom ''203.0.113.9'' ''GET'' (Inl []))))) =
       [Some 405, Some 405, Some 405, Some 405, Some 405, Some 429]"
  by (simp add: handler_eval stub_fields method_requestFrom get_is_not_post numeral_eq_Suc)

text \<open>
  C8, as the code has it. With an environment that \<^verbatim>\<open>getConfig\<close> accepts and a key with
  which the model client can be constructed, the generation handler returns a response
  for every request: status 200 with the plan, or a body \<^verbatim>\<open>{success: false, message, ...}\<close>
  with status 400, 405, 429 or 500. With an environment that \<^verbatim>\<open>getConfig\<close> rejects, or
  one it accepts but whose key the constructor of the client refuses, a throttled
  request still gets the 429 response and an allowed request with another method the 405
  response, but an allowed POST request makes \<^verbatim>\<open>getConfig\<close> or the constructor throw, and
  the error leaves the handler: both calls stand before the \<^verbatim>\<open>try\<close> block.
\<close>

theorem generateAction_failures:
  "(getConfig (zodMessage w) (processEnv w) = Inr cfg \<and> newOpenAI w cfg = None \<longrightarrow>
      (\<exists>r. fst (generateAction w request st) = Returns r \<and>
           ((status r = 200 \<and> (\<exists>plan. body r = PlanJson plan)) \<or>
            (status r \<in> {400, 405, 429, 500} \<and>
             (\<exists>message errors. body r = Failure message errors)))))
   \<and> (getConfig (zodMessage w) (processEnv w) = Inl error \<or>
        (getConfig (zodMessage w) (processEnv w) = Inr cfg \<and> newOpenAI w cfg = Some error) \<longrightarrow>
        (\<not> allowed (fst (generateRateLimit w request st)) \<longrightarrow>
           fst (generateAction w request st) =
             Returns (tooManyRequests GENERATE_PLAN_MAX (fst (generateRateLimit w request st))))
        \<and> (allowed (fst (generateRateLimit w request st)) \<and> httpMethod request \<noteq> js ''POST'' \<longrightarrow>
           fst (generateAction w request st) = Returns methodNotAllowed)
        \<and> (allowed (fst (generateRateLimit w request st)) \<and> httpMethod request = js ''POST'' \<longrightarrow>
           fst (generateAction w request st) = Throws error))"
proof (intro conjI impI)
  assume ok: "getConfig (zodMessage w) (processEnv w) = Inr cfg \<and> newOpenAI w cfg = None"
  then have cfg: "getConfig (zodMessage w) (processEnv w) = Inr cfg"
    and client: "newOpenAI w cfg = None" by simp_all
  obtain rl st' where rl: "generateRateLimit w request st = (rl, st')"
    by (cases "generateRateLimit w request st")
  show "\<exists>r. fst (generateAction w request st) = Returns r \<and>
           ((status r = 200 \<and> (\<exists>plan. body r = PlanJson plan)) \<or>
            (status r \<in> {400, 405, 429, 500} \<and>
             (\<exists>message errors. body r = Failure message errors)))"
  proof (cases "allowed rl")
    case False
    with rl tooManyRequests_structured[of GENERATE_PLAN_MAX rl] show ?thesis
      by (auto simp: generateAction_def)
  next
    case True
    show ?thesis
    proof (cases "httpMethod request = js ''POST''")
      case False
      with True rl show ?thesis
        by (simp add: generateAction_def methodNotAllowed_def)
    next
      case post: True
      show ?thesis
      proof (cases "generateTry w cfg request")
        case (Inl e)
        with True post rl cfg client generateCatch_structured[of e] show ?thesis
          by (auto simp: generateAction_def)
      next
        case (Inr plan)
        with True post rl cfg client show ?thesis
          by (simp add: generateAction_def)
      qed
    qed
  qed
next
  assume "getConfig (zodMessage w) (processEnv w) = Inl error \<or>
        (getConfig (zodMessage w) (processEnv w) = Inr cfg \<and> newOpenAI w cfg = Some error)"
    and "\<not> allowed (fst (generateRateLimit w request st))"
  then show "fst (generateAction w request st) =
             Returns (tooManyRequests GENERATE_PLAN_MAX (fst (generateRateLimit w request st)))"
    by (simp add: generateAction_def case_prod_unfold)
next
  assume "getConfig (zodMessage w) (processEnv w) = Inl error \<or>
        (getConfig (zodMessage w) (processEnv w) = Inr cfg \<and> newOpenAI w cfg = Some error)"
    and "allowed (fst (generateRateLimit w request st)) \<and> httpMethod request \<noteq> js ''POST''"
  then show "fst (generateAction w request st) = Returns methodNotAllowed"
    by (simp add: generateAction_def case_prod_unfold)
next
  assume "getConfig (zodMessage w) (processEnv w) = Inl error \<or>
        (getConfig (zodMessage w) (processEnv w) = Inr cfg \<and> newOpenAI w cfg = Some error)"
    and "allowed (fst (generateRateLimit w request st)) \<and> httpMethod request = js ''POST''"
  then show "fst (generateAction w request st) = Throws error"
    by (auto simp: generateAction_def case_prod_unfold)
qed

theorem generateAction_failures_witness:
  "getConfig (zodMessage (stubWorld 1000 goodEnv (js ''{}''))) (processEnv (stubWorld 1000 goodEnv (js ''{}'')))
     = Inr \<lparr>OPENAI_API_KEY = js ''sk-test'', OPENAI_MODEL = js ''gpt-4o-mini''\<rparr>
   \<and> newOpenAI (stubWorld 1000 goodEnv (js ''{}''))
        \<lparr>OPENAI_API_KEY = js ''sk-test'', OPENAI_MODEL = js ''gpt-4o-mini''\<rparr> = None
   \<and> statusOf (fst (generateAction (stubWorld 1000 goodEnv (js ''{}''))
          (requestFrom ''203.0.113.9'' ''POST'' (Inr formPayload)) emptyLimiter)) = Some 500
   \<and> getConfig (zodMessage (stubWorld 1000 Map.empty (js ''{}'')))
        (processEnv (stubWorld 1000 Map.empty (js ''{}'')))
     = Inl (PlainError (js ''Invalid environment variables: invalid''))
   \<and> allowed (fst (generateRateLimit (stubWorld 1000 Map.empty (js ''{}''))
          (requestFrom ''203.0.113.9'' ''POST'' (Inr formPayload)) emptyLimiter))
   \<and> httpMethod (requestFrom ''203.0.113.9'' ''POST'' (Inr formPayload)) = js ''POST''
   \<and> statusOf (fst (generateAction (stubWorld 1000 Map.empty (js ''{}''))
          (requestFrom ''203.0.113.9'' ''POST'' (Inr formPayload)) emptyLimiter)) = None
   \<and> getConfig (zodMessage (stubWorld 1000 emptyKeyEnv (js ''{}'')))
        (processEnv (stubWorld 1000 emptyKeyEnv (js ''{}'')))
     = Inr \<lparr>OPENAI_API_KEY = [], OPENAI_MODEL = js ''gpt-4o-mini''\<rparr>
   \<and> newOpenAI (stubWorld 1000 emptyKeyEnv (js ''{}''))
        \<lparr>OPENAI_API_KEY = [], OPENAI_MODEL = js ''gpt-4o-mini''\<rparr>
     = Some (PlainError (js ''Missing credentials''))
   \<and> allowed (fst (generateRateLimit (stubWorld 1000 emptyKeyEnv (js ''{}''))
          (requestFrom ''203.0.113.9'' ''POST'' (Inr formPayload)) emptyLimiter))
   \<and> fst (generateAction (stubWorld 1000 emptyKeyEnv (js ''{}''))
          (requestFrom ''203.0.113.9'' ''POST'' (Inr formPayload)) emptyLimiter)
     = Throws (PlainError (js ''Missing credentials''))
   \<and> allowed (fst (generateRateLimit (stubWorld 1000 Map.empty (js ''{}''))
          (requestFrom ''203.0.113.9'' ''GET'' (Inl [])) emptyLimiter))
   \<and> httpMethod (requestFrom ''203.0.113.9'' ''GET'' (Inl [])) \<noteq> js ''POST''
   \<and> statusOf (fst (generateAction (stubWorld 1000 Map.empty (js ''{}''))
          (requestFrom ''203.0.113.9'' ''GET'' (Inl [])) emptyLimiter)) = Some 405
   \<and> \<not> allowed (fst (generateRateLimit (stubWorld 2000 Map.empty (js ''{}''))
          (requestFrom ''203.0.113.9'' ''POST'' (Inr formPayload))
          (snd (serve emptyLimiter (replicate 5
             (Generate, stubWorld 1000 goodEnv [], requestFrom ''203.0.113.9'' ''GET'' (Inl [])))))))
   \<and> statusOf (fst (generateAction (stubWorld 2000 Map.empty (js ''{}''))
          (requestFrom ''203.0.113.9'' ''POST'' (Inr formPayload))
          (snd (serve emptyLimiter (replicate 5
             (Generate, stubWorld 1000 goodEnv [], requestFrom ''203.0.113.9'' ''GET'' (Inl []))))))) = Some 429"
proof -
  have bad: "getConfig (\<lambda>issues. js ''invalid'') Map.empty
       = Inl (PlainError (js ''Invalid environment variables: invalid''))"
    by (simp add: getConfig_def schema_eval js_def)
  have emptyKey: "getConfig (\<lambda>issues. js ''invalid'') emptyKeyEnv
       = Inr \<lparr>OPENAI_API_KEY = [], OPENAI_MODEL = js ''gpt-4o-mini''\<rparr>"
    by (simp add: getConfig_def emptyKeyEnv_def schema_eval js_def)
  from generateAction_failures[of "stubWorld 1000 goodEnv (js ''{}'')"
          "\<lparr>OPENAI_API_KEY = js ''sk-test'', OPENAI_MODEL = js ''gpt-4o-mini''\<rparr>"
          "requestFrom ''203.0.113.9'' ''POST'' (Inr formPayload)" emptyLimiter
          "PlainError (js ''Invalid environment variables: invalid'')"]
       generateAction_failures[of "stubWorld 1000 Map.empty (js ''{}'')"
          "\<lparr>OPENAI_API_KEY = js ''sk-test'', OPENAI_MODEL = js ''gpt-4o-mini''\<rparr>"
          "requestFrom ''203.0.113.9'' ''POST'' (Inr formPayload)" emptyLimiter
          "PlainError (js ''Invalid environment variables: invalid'')"]
       generateAction_failures[of "stubWorld 1000 emptyKeyEnv (js ''{}'')"
          "\<lparr>OPENAI_API_KEY = [], OPENAI_MODEL = js ''gpt-4o-mini''\<rparr>"
          "requestFrom ''203.0.113.9'' ''POST'' (Inr formPayload)" emptyLimiter
          "PlainError (js ''Missing credentials'')"]
  show ?thesis
    by (simp add: handler_eval stub_fields method_requestFrom get_is_not_post numeral_eq_Suc
        goodEnv_config bad emptyKey generate_formPayload generateCatch_def isInputValidation_def
        test_key_not_empty)
       (simp add: js_def)
qed

text \<open>
  C8 as stated fails: with an empty environment (no API key, no model name) a POST
  request makes the handler throw instead of returning a response.
\<close>

theorem missing_key_escapes:
  "fst (generateAction (stubWorld 1000 Map.empty (js ''{}''))
          (requestFrom ''203.0.113.9'' ''POST'' (Inr formPayload)) emptyLimiter) =
     Throws (PlainError (js ''Invalid environment variables: invalid''))"
  by (simp add: generateAction_def generateRateLimit_def clientOf_requestFrom limiter_eval
       stubWorld_def getConfig_def schema_eval)
     (simp add: requestFrom_def js_def)

end
